theory Spec2Isabelle
  imports Complex_Main "HOL-Library.Word"
begin

section \<open>The music route of the VoiceCompanion backend\<close>

text \<open>
  A shallow embedding of \<^verbatim>\<open>backend/src/routes/music.ts\<close>: the tone synthesizer
  \<^verbatim>\<open>generateSimpleTone\<close>, the WAV encoder \<^verbatim>\<open>createWavFile\<close>, the secondary-provider
  loop \<^verbatim>\<open>generateMusicFallback\<close> and the handler of \<^verbatim>\<open>POST /generate\<close>.

  Conventions of the embedding.
  \<^item> A Node \<^verbatim>\<open>Buffer\<close> is a list of bytes. A method that throws returns \<open>Inl\<close> of the
    error, so each \<^verbatim>\<open>try\<close>/\<^verbatim>\<open>catch\<close> of the source is a case distinction.
  \<^item> The JavaScript numbers of the waveform are IEEE doubles. The synthesizer is
    embedded twice: over the real numbers (\<open>sin\<close> is the real sine, no rounding), for
    the sizes, the amplitude bound and the determinism, which do not depend on the exact
    value of a sample; and with the rounding of every operation and the sine as
    parameters, for the value of a sample. Counts, sizes and offsets are integers.
  \<^item> The remote providers, the uninitialised memory of \<^verbatim>\<open>Buffer.allocUnsafe\<close> and the
    clock are inputs of the model (an \<open>environment\<close>).
\<close>

subsection \<open>Buffers and the Node methods the route calls\<close>

type_synonym byte = "8 word"
type_synonym buffer = "byte list"

text \<open>
  The errors that can be thrown inside the route: the range errors of the Buffer
  methods (with the name of the offending argument), and the error of a remote provider
  (with its message).
\<close>

datatype js_error =
    ERR_OUT_OF_RANGE string
  | ERR_BUFFER_OUT_OF_BOUNDS
  | ProviderError string

text \<open>
  \<^verbatim>\<open>buffer.constants.MAX_LENGTH\<close> of the platform (the value of current 64-bit Node
  releases; older releases have smaller values, all far above the 2646000 bytes of a
  30 second clip).
\<close>

definition kMaxLength :: int where
  "kMaxLength = 2 ^ 53 - 1"

text \<open>
  \<^verbatim>\<open>Buffer.allocUnsafe(size)\<close> throws for a size outside \<open>[0, kMaxLength]\<close>; otherwise
  the buffer holds whatever the memory held, here the values of \<open>garbage\<close>.
\<close>

definition allocUnsafe :: "(nat \<Rightarrow> byte) \<Rightarrow> int \<Rightarrow> js_error + buffer" where
  "allocUnsafe garbage sz =
     (if sz < 0 \<or> kMaxLength < sz then Inl (ERR_OUT_OF_RANGE ''size'')
      else Inr (map garbage [0..<nat sz]))"

text \<open>\<^verbatim>\<open>Buffer.alloc(size)\<close>, called with the constant 44 only: zero-filled.\<close>

definition alloc :: "nat \<Rightarrow> buffer" where
  "alloc sz = replicate sz 0"

text \<open>
  \<^verbatim>\<open>buf.write(string, offset)\<close> for an ASCII string: the bytes of the string are stored from
  \<open>offset\<close> on, as many as fit.
\<close>

definition writeString :: "string \<Rightarrow> nat \<Rightarrow> buffer \<Rightarrow> buffer" where
  "writeString s offset buf =
     take (length buf) (take offset buf @ map of_char s @ drop (offset + length s) buf)"

text \<open>
  The bounds check of the integer writers: an access of \<open>n\<close> bytes at \<open>offset\<close> that
  leaves the buffer throws.
\<close>

definition checkBounds :: "buffer \<Rightarrow> nat \<Rightarrow> nat \<Rightarrow> js_error option" where
  "checkBounds buf offset n =
     (if offset + n \<le> length buf then None
      else if length buf < n then Some ERR_BUFFER_OUT_OF_BOUNDS
      else Some (ERR_OUT_OF_RANGE ''offset''))"

text \<open>
  \<^verbatim>\<open>checkInt\<close> of Node: first the value against the range of the field, then the bounds.
\<close>

definition checkInt :: "int \<Rightarrow> int \<Rightarrow> int \<Rightarrow> buffer \<Rightarrow> nat \<Rightarrow> nat \<Rightarrow> js_error option" where
  "checkInt v mn mx buf offset n =
     (if v > mx \<or> v < mn then Some (ERR_OUT_OF_RANGE ''value'')
      else checkBounds buf offset n)"

text \<open>
  Byte \<open>k\<close> of the two's complement representation of \<open>v\<close>, least significant
  first: what \<^verbatim>\<open>buf[offset++] = value; value = value >>> 8\<close> stores in turn.
\<close>

definition byteAt :: "int \<Rightarrow> nat \<Rightarrow> byte" where
  "byteAt v k = word_of_int (v div 2 ^ (8 * k))"

definition writeUInt32LE :: "int \<Rightarrow> nat \<Rightarrow> buffer \<Rightarrow> js_error + buffer" where
  "writeUInt32LE v offset buf =
     (case checkInt v 0 4294967295 buf offset 4 of
        Some e \<Rightarrow> Inl e
      | None \<Rightarrow> Inr (buf[offset := byteAt v 0,
                         offset + 1 := byteAt v 1,
                         offset + 2 := byteAt v 2,
                         offset + 3 := byteAt v 3]))"

definition writeUInt16LE :: "int \<Rightarrow> nat \<Rightarrow> buffer \<Rightarrow> js_error + buffer" where
  "writeUInt16LE v offset buf =
     (case checkInt v 0 65535 buf offset 2 of
        Some e \<Rightarrow> Inl e
      | None \<Rightarrow> Inr (buf[offset := byteAt v 0,
                         offset + 1 := byteAt v 1]))"

definition writeInt16LE :: "int \<Rightarrow> nat \<Rightarrow> buffer \<Rightarrow> js_error + buffer" where
  "writeInt16LE v offset buf =
     (case checkInt v (- 32768) 32767 buf offset 2 of
        Some e \<Rightarrow> Inl e
      | None \<Rightarrow> Inr (buf[offset := byteAt v 0,
                         offset + 1 := byteAt v 1]))"

text \<open>
  The readers that decode what the writers store (\<^verbatim>\<open>readUInt32LE\<close>, \<^verbatim>\<open>readUInt16LE\<close>,
  \<^verbatim>\<open>readInt16LE\<close> of Node); the route does not call them, the theorems read the header
  fields and the samples back with them. They are used inside the buffer only.
\<close>

definition readUInt16LE :: "buffer \<Rightarrow> nat \<Rightarrow> int" where
  "readUInt16LE buf offset = uint (buf ! offset) + 2 ^ 8 * uint (buf ! (offset + 1))"

definition readUInt32LE :: "buffer \<Rightarrow> nat \<Rightarrow> int" where
  "readUInt32LE buf offset =
     uint (buf ! offset) + 2 ^ 8 * uint (buf ! (offset + 1))
       + 2 ^ 16 * uint (buf ! (offset + 2)) + 2 ^ 24 * uint (buf ! (offset + 3))"

definition readInt16LE :: "buffer \<Rightarrow> nat \<Rightarrow> int" where
  "readInt16LE buf offset =
     (let v = readUInt16LE buf offset in if v \<ge> 32768 then v - 65536 else v)"

text \<open>A statement that throws ends the sequence of statements after it.\<close>

definition andThen :: "'e + 'a \<Rightarrow> ('a \<Rightarrow> 'e + 'b) \<Rightarrow> 'e + 'b" where
  "andThen r f = (case r of Inl e \<Rightarrow> Inl e | Inr x \<Rightarrow> f x)"

subsection \<open>The WAV encoder\<close>

definition createWavFile :: "buffer \<Rightarrow> int \<Rightarrow> js_error + buffer" where
  "createWavFile audioData sampleRate =
     (let numChannels = 1 :: int;
          bitsPerSample = 16 :: int;
          byteRate = sampleRate * numChannels * bitsPerSample div 8;
          blockAlign = numChannels * bitsPerSample div 8;
          dataSize = int (length audioData);
          fileSize = 36 + dataSize;
          wavHeader = alloc 44;
          wavHeader = writeString ''RIFF'' 0 wavHeader
      in andThen (writeUInt32LE fileSize 4 wavHeader) (\<lambda>wavHeader.
         let wavHeader = writeString ''WAVE'' 8 wavHeader;
             wavHeader = writeString ''fmt '' 12 wavHeader
         in andThen (writeUInt32LE 16 16 wavHeader) (\<lambda>wavHeader.
            andThen (writeUInt16LE 1 20 wavHeader) (\<lambda>wavHeader.
            andThen (writeUInt16LE numChannels 22 wavHeader) (\<lambda>wavHeader.
            andThen (writeUInt32LE sampleRate 24 wavHeader) (\<lambda>wavHeader.
            andThen (writeUInt32LE byteRate 28 wavHeader) (\<lambda>wavHeader.
            andThen (writeUInt16LE blockAlign 32 wavHeader) (\<lambda>wavHeader.
            andThen (writeUInt16LE bitsPerSample 34 wavHeader) (\<lambda>wavHeader.
            let wavHeader = writeString ''data'' 36 wavHeader
            in andThen (writeUInt32LE dataSize 40 wavHeader) (\<lambda>wavHeader.
               Inr (wavHeader @ audioData)))))))))))"

text \<open>
  The division by 8 of the source is a floating-point division; both quotients are
  exact (\<open>16 / 8 = 2\<close>), so integer division computes the same numbers.
\<close>

text \<open>The 44 bytes of the header, as the sequence of writes leaves them.\<close>

definition wavHeaderBytes :: "int \<Rightarrow> int \<Rightarrow> buffer" where
  "wavHeaderBytes dataSize sampleRate =
     [0x52, 0x49, 0x46, 0x46,
      byteAt (36 + dataSize) 0, byteAt (36 + dataSize) 1,
      byteAt (36 + dataSize) 2, byteAt (36 + dataSize) 3,
      0x57, 0x41, 0x56, 0x45,
      0x66, 0x6D, 0x74, 0x20,
      byteAt 16 0, byteAt 16 1, byteAt 16 2, byteAt 16 3,
      byteAt 1 0, byteAt 1 1,
      byteAt 1 0, byteAt 1 1,
      byteAt sampleRate 0, byteAt sampleRate 1, byteAt sampleRate 2, byteAt sampleRate 3,
      byteAt (sampleRate * 1 * 16 div 8) 0, byteAt (sampleRate * 1 * 16 div 8) 1,
      byteAt (sampleRate * 1 * 16 div 8) 2, byteAt (sampleRate * 1 * 16 div 8) 3,
      byteAt (1 * 16 div 8) 0, byteAt (1 * 16 div 8) 1,
      byteAt 16 0, byteAt 16 1,
      0x64, 0x61, 0x74, 0x61,
      byteAt dataSize 0, byteAt dataSize 1, byteAt dataSize 2, byteAt dataSize 3]"


text \<open>
  What the header of a container \<open>wav\<close> for the payload \<open>audioData\<close> must hold: the
  three tags at their offsets, and every integer field, read back little-endian, with
  the value the encoder computes for it (one channel, 16 bits per sample).
\<close>

definition wavLayout :: "buffer \<Rightarrow> buffer \<Rightarrow> int \<Rightarrow> bool" where
  "wavLayout wav audioData sampleRate \<longleftrightarrow>
     length wav = 44 + length audioData \<and>
     take 44 wav = wavHeaderBytes (int (length audioData)) sampleRate \<and>
     drop 44 wav = audioData \<and>
     take 4 wav = map of_char ''RIFF'' \<and>
     take 4 (drop 8 wav) = map of_char ''WAVE'' \<and>
     take 4 (drop 12 wav) = map of_char ''fmt '' \<and>
     take 4 (drop 36 wav) = map of_char ''data'' \<and>
     readUInt32LE wav 4 = 36 + int (length audioData) \<and>
     readUInt32LE wav 16 = 16 \<and>
     readUInt16LE wav 20 = 1 \<and>
     readUInt16LE wav 22 = 1 \<and>
     readUInt32LE wav 24 = sampleRate \<and>
     readUInt32LE wav 28 = sampleRate * 1 * 16 div 8 \<and>
     readUInt16LE wav 32 = 1 * 16 div 8 \<and>
     readUInt16LE wav 34 = 16 \<and>
     readUInt32LE wav 40 = int (length audioData)"

subsection \<open>The tone synthesizer\<close>

text \<open>
  The constants of \<^verbatim>\<open>generateSimpleTone\<close>. The duration is an integer: the handler
  passes \<^verbatim>\<open>Math.min(Math.floor(...), 30)\<close>.
\<close>

definition sampleRate :: int where
  "sampleRate = 44100"

definition scale :: "real list" where
  "scale = [261.63, 293.66, 329.63, 349.23, 392.00, 440.00, 493.88, 523.25]"

definition notesPerSecond :: int where
  "notesPerSecond = 2"

definition samplesPerNote :: int where
  "samplesPerNote = \<lfloor>real_of_int sampleRate / real_of_int notesPerSecond\<rfloor>"

definition totalNotes :: "int \<Rightarrow> int" where
  "totalNotes durationSeconds = \<lceil>real_of_int durationSeconds * real_of_int notesPerSecond\<rceil>"

text \<open>
  The body of the loop, for the sample index \<open>i\<close>. The remainder \<^verbatim>\<open>%\<close> of JavaScript
  is taken of non-negative integers by a positive one whenever the body runs (a duration
  of zero runs no iteration), where it is \<open>mod\<close>.
\<close>

definition noteIndex :: "int \<Rightarrow> nat \<Rightarrow> int" where
  "noteIndex durationSeconds i =
     \<lfloor>real i / real_of_int samplesPerNote\<rfloor> mod totalNotes durationSeconds"

definition scaleIndex :: "int \<Rightarrow> nat \<Rightarrow> int" where
  "scaleIndex durationSeconds i = noteIndex durationSeconds i mod int (length scale)"

definition frequency :: "int \<Rightarrow> nat \<Rightarrow> real" where
  "frequency durationSeconds i = scale ! nat (scaleIndex durationSeconds i)"

definition sample :: "int \<Rightarrow> nat \<Rightarrow> real" where
  "sample durationSeconds i =
     (let baseFreq = frequency durationSeconds i;
          harmonyFreq = frequency durationSeconds i * 0.5;
          t = real i / real_of_int sampleRate;
          sample1 = sin (2 * pi * baseFreq * t);
          sample2 = sin (2 * pi * harmonyFreq * t) * 0.5
      in (sample1 + sample2) / 1.5)"

definition notePosition :: "nat \<Rightarrow> real" where
  "notePosition i = real_of_int (int i mod samplesPerNote) / real_of_int samplesPerNote"

definition envelope :: "nat \<Rightarrow> real" where
  "envelope i =
     (if notePosition i < 0.1 then notePosition i / 0.1
      else if notePosition i > 0.9 then (1 - notePosition i) / 0.1
      else 1.0)"

definition globalEnvelope :: "int \<Rightarrow> nat \<Rightarrow> real" where
  "globalEnvelope durationSeconds i =
     (let numSamples = sampleRate * durationSeconds
      in min 1 (min (real i / (real_of_int sampleRate * 0.1))
                    ((real_of_int numSamples - real i) / (real_of_int sampleRate * 0.1))))"

definition amplitude :: "int \<Rightarrow> nat \<Rightarrow> int" where
  "amplitude durationSeconds i =
     \<lfloor>sample durationSeconds i * envelope i * globalEnvelope durationSeconds i * 12000\<rfloor>"

text \<open>
  The loop \<^verbatim>\<open>for (let i = 0; i < numSamples; i++)\<close> over the list of its indices: each
  iteration writes one sample; a write that throws ends the loop.
\<close>

fun writeSamples :: "int \<Rightarrow> nat list \<Rightarrow> buffer \<Rightarrow> js_error + buffer" where
  "writeSamples durationSeconds [] buffer = Inr buffer"
| "writeSamples durationSeconds (i # rest) buffer =
     andThen (writeInt16LE (amplitude durationSeconds i) (i * 2) buffer)
       (writeSamples durationSeconds rest)"

text \<open>
  The part of \<^verbatim>\<open>generateSimpleTone\<close> before the call of the encoder: the PCM buffer.
  \<open>garbage\<close> is the content of the memory that \<^verbatim>\<open>Buffer.allocUnsafe\<close> hands out.
\<close>

definition synthesize :: "(nat \<Rightarrow> byte) \<Rightarrow> int \<Rightarrow> js_error + buffer" where
  "synthesize garbage durationSeconds =
     (let numSamples = sampleRate * durationSeconds
      in andThen (allocUnsafe garbage (numSamples * 2))
           (writeSamples durationSeconds [0..<nat numSamples]))"

definition generateSimpleTone :: "(nat \<Rightarrow> byte) \<Rightarrow> int \<Rightarrow> js_error + buffer" where
  "generateSimpleTone garbage durationSeconds =
     andThen (synthesize garbage durationSeconds) (\<lambda>buffer. createWavFile buffer sampleRate)"

subsection \<open>Requests, providers and responses\<close>

text \<open>
  A JavaScript string is a sequence of UTF-16 code units. The field \<^verbatim>\<open>prompt\<close> of the
  request body is any JSON value; \<^verbatim>\<open>musicLengthMs\<close> is an integer or absent. The
  other fields of the body are handed to the primary provider untouched and are not
  part of the model.
\<close>

type_synonym js_string = "16 word list"

datatype js_value =
    JUndefined
  | JNull
  | JBoolean bool
  | JNumber int
  | JString js_string
  | JObject

record request =
  prompt :: js_value
  musicLengthMs :: "int option"

text \<open>A call of a remote provider either rejects with a message or resolves with a payload.\<close>

datatype provider_outcome = Rejects string | Resolves buffer

text \<open>
  What the route cannot compute by itself: the outcome of
  \<^verbatim>\<open>elevenLabsService.generateMusic\<close> (for a prompt and a length; the service module
  is not among the sources, and the handler only distinguishes whether its promise
  rejects or resolves with a buffer), the outcome of the request to a secondary model
  (for the model, the prompt and the duration sent), the uninitialised memory, and the
  value of \<^verbatim>\<open>Date.now()\<close>.
\<close>

record environment =
  elevenLabs :: "js_string \<Rightarrow> int option \<Rightarrow> provider_outcome"
  huggingFace :: "string \<Rightarrow> js_string \<Rightarrow> int \<Rightarrow> provider_outcome"
  uninitialised :: "nat \<Rightarrow> byte"
  dateNow :: nat

text \<open>
  The calls the route makes, in order: the primary provider, a secondary model with the
  duration sent to it, the synthesizer with its duration. Logging is not modelled.
\<close>

datatype event = PrimaryCall | SecondaryCall string int | SynthCall int

datatype tier = Primary | Secondary | LocalSynthesis

datatype header_value = HString string | HNumber nat

datatype response_body = AudioBody buffer | JsonBody string string

record response =
  status :: nat
  headers :: "(string \<times> header_value) list"
  body :: response_body

record outcome =
  calls :: "event list"
  reply :: response

subsection \<open>Strings\<close>

text \<open>
  \<^verbatim>\<open>String.prototype.trim\<close> removes white space and line terminators from both ends:
  TAB, LF, VT, FF, CR, SP, NBSP, the other space separators of Unicode, LS, PS and the
  byte order mark.
\<close>

definition isWhiteSpace :: "16 word \<Rightarrow> bool" where
  "isWhiteSpace c \<longleftrightarrow>
     c \<in> {0x0009, 0x000A, 0x000B, 0x000C, 0x000D, 0x0020, 0x00A0, 0x1680,
          0x2000, 0x2001, 0x2002, 0x2003, 0x2004, 0x2005, 0x2006, 0x2007, 0x2008,
          0x2009, 0x200A, 0x2028, 0x2029, 0x202F, 0x205F, 0x3000, 0xFEFF}"

definition trim :: "js_string \<Rightarrow> js_string" where
  "trim s = rev (dropWhile isWhiteSpace (rev (dropWhile isWhiteSpace s)))"

text \<open>\<^verbatim>\<open>!value\<close> is the negation of this; \<^verbatim>\<open>typeof value !== 'string'\<close> of the next.\<close>

fun truthy :: "js_value \<Rightarrow> bool" where
  "truthy JUndefined = False"
| "truthy JNull = False"
| "truthy (JBoolean b) = b"
| "truthy (JNumber n) = (n \<noteq> 0)"
| "truthy (JString s) = (s \<noteq> [])"
| "truthy JObject = True"

fun isString :: "js_value \<Rightarrow> bool" where
  "isString (JString s) = True"
| "isString v = False"

fun stringOf :: "js_value \<Rightarrow> js_string" where
  "stringOf (JString s) = s"
| "stringOf v = []"

text \<open>\<^verbatim>\<open>s.includes(sub)\<close> on messages.\<close>

fun startsWith :: "string \<Rightarrow> string \<Rightarrow> bool" where
  "startsWith s [] = True"
| "startsWith [] (c # sub) = False"
| "startsWith (d # s) (c # sub) = (d = c \<and> startsWith s sub)"

fun stringIncludes :: "string \<Rightarrow> string \<Rightarrow> bool" where
  "stringIncludes [] sub = (sub = [])"
| "stringIncludes (d # s) sub = (startsWith (d # s) sub \<or> stringIncludes s sub)"

text \<open>The decimal digits of a number, as a template literal prints it.\<close>

function decimal :: "nat \<Rightarrow> string" where
  "decimal n =
     (if n < 10 then [char_of (48 + n)] else decimal (n div 10) @ [char_of (48 + n mod 10)])"
  by pat_completeness auto
termination
  by (relation "measure (\<lambda>n. n)") simp_all

declare decimal.simps [simp del]

text \<open>
  The message of an error. The texts of Node's own errors are shortened; they contain
  none of the phrases the handler looks for.
\<close>

fun message :: "js_error \<Rightarrow> string" where
  "message (ERR_OUT_OF_RANGE arg) = ''The value of '' @ arg @ '' is out of range.''"
| "message ERR_BUFFER_OUT_OF_BOUNDS = ''Attempt to access memory outside buffer bounds''"
| "message (ProviderError m) = m"

subsection \<open>The secondary providers\<close>

definition models :: "string list" where
  "models = [''facebook/musicgen-small'', ''facebook/musicgen-medium'',
             ''audiocraft/musicgen-small'']"

text \<open>
  The loop over the models of \<^verbatim>\<open>generateMusicFallback\<close>: the first model that resolves
  with a payload of positive length ends the loop with that payload; a model that
  rejects (the inner \<^verbatim>\<open>catch\<close>) or resolves with an empty payload is passed over.
  The result is the calls made and the payload, if any.
\<close>

fun tryModels :: "environment \<Rightarrow> js_string \<Rightarrow> int \<Rightarrow> string list \<Rightarrow> event list \<times> buffer option" where
  "tryModels env promptText durationSeconds [] = ([], None)"
| "tryModels env promptText durationSeconds (model # rest) =
     (let duration = min durationSeconds 30;
          call = SecondaryCall model duration
      in case huggingFace env model promptText duration of
           Resolves data \<Rightarrow>
             if length data > 0 then ([call], Some data)
             else (case tryModels env promptText durationSeconds rest of
                     (evs, r) \<Rightarrow> (call # evs, r))
         | Rejects msg \<Rightarrow>
             (case tryModels env promptText durationSeconds rest of
                (evs, r) \<Rightarrow> (call # evs, r)))"

text \<open>
  \<^verbatim>\<open>generateMusicFallback\<close>: after the loop the synthesizer is called; when that call
  throws, the outer \<^verbatim>\<open>catch\<close> calls it once more, and what this second call throws
  rejects the promise.
\<close>

definition generateMusicFallback ::
  "environment \<Rightarrow> js_string \<Rightarrow> int \<Rightarrow> event list \<times> (js_error + buffer)" where
  "generateMusicFallback env promptText durationSeconds =
     (case tryModels env promptText durationSeconds models of
        (evs, Some data) \<Rightarrow> (evs, Inr data)
      | (evs, None) \<Rightarrow>
          (case generateSimpleTone (uninitialised env) durationSeconds of
             Inr wav \<Rightarrow> (evs @ [SynthCall durationSeconds], Inr wav)
           | Inl error \<Rightarrow>
               (evs @ [SynthCall durationSeconds, SynthCall durationSeconds],
                generateSimpleTone (uninitialised env) durationSeconds)))"

subsection \<open>The handler of POST /generate\<close>

text \<open>\<^verbatim>\<open>Math.floor((musicLengthMs || 30000) / 1000)\<close>: absent and 0 are falsy.\<close>

definition durationOf :: "int option \<Rightarrow> int" where
  "durationOf ms =
     (case ms of None \<Rightarrow> 30000 | Some v \<Rightarrow> if v = 0 then 30000 else v) div 1000"

definition audioResponse :: "environment \<Rightarrow> buffer \<Rightarrow> bool \<Rightarrow> response" where
  "audioResponse env musicBuffer usedFallback =
     \<lparr>status = 200,
      headers =
        [(''Content-Type'', HString (if usedFallback then ''audio/wav'' else ''audio/mpeg'')),
         (''Content-Length'', HNumber (length musicBuffer)),
         (''Content-Disposition'',
            HString (''attachment; filename='' @ [CHR 0x22] @ ''generated-music-''
                     @ decimal (dateNow env) @ ''.''
                     @ (if usedFallback then ''wav'' else ''mp3'') @ [CHR 0x22]))]
        @ (if usedFallback then [(''X-Music-Source'', HString ''fallback'')] else []),
      body = AudioBody musicBuffer\<rparr>"

text \<open>The outer \<^verbatim>\<open>catch\<close> of the handler: the status is chosen by the message.\<close>

definition errorResponse :: "js_error \<Rightarrow> response" where
  "errorResponse error =
     (let msg = message error;
          errorMessage = (if msg = [] then ''An error occurred while generating music'' else msg);
          statusCode =
            (if stringIncludes msg ''API key'' then 401
             else if stringIncludes msg ''Payment Required'' \<or> stringIncludes msg ''paid subscription''
                     \<or> stringIncludes msg ''upgrade your plan'' then 402
             else if stringIncludes msg ''rate limit'' then 429
             else if stringIncludes msg ''not available'' \<or> stringIncludes msg ''endpoint not found'' then 404
             else 500)
      in \<lparr>status = statusCode, headers = [],
          body = JsonBody ''Failed to generate music'' errorMessage\<rparr>)"

definition badRequest :: response where
  "badRequest =
     \<lparr>status = 400, headers = [],
      body = JsonBody ''Prompt is required''
        ''Please provide a text prompt describing the music you want to generate''\<rparr>"

definition validPrompt :: "js_value \<Rightarrow> bool" where
  "validPrompt p \<longleftrightarrow> \<not> (\<not> truthy p \<or> \<not> isString p \<or> length (trim (stringOf p)) = 0)"

definition postGenerate :: "environment \<Rightarrow> request \<Rightarrow> outcome" where
  "postGenerate env req =
     (if \<not> validPrompt (prompt req) then \<lparr>calls = [], reply = badRequest\<rparr>
      else
        case elevenLabs env (stringOf (prompt req)) (musicLengthMs req) of
          Resolves musicBuffer \<Rightarrow>
            \<lparr>calls = [PrimaryCall], reply = audioResponse env musicBuffer False\<rparr>
        | Rejects elevenLabsError \<Rightarrow>
            (let durationSeconds = durationOf (musicLengthMs req)
             in case generateMusicFallback env (stringOf (prompt req)) (min durationSeconds 30) of
                  (evs, Inr musicBuffer) \<Rightarrow>
                    \<lparr>calls = PrimaryCall # evs, reply = audioResponse env musicBuffer True\<rparr>
                | (evs, Inl fallbackError) \<Rightarrow>
                    (case generateSimpleTone (uninitialised env) (min durationSeconds 30) of
                       Inr musicBuffer \<Rightarrow>
                         \<lparr>calls = PrimaryCall # evs @ [SynthCall (min durationSeconds 30)],
                          reply = audioResponse env musicBuffer True\<rparr>
                     | Inl error \<Rightarrow>
                         \<lparr>calls = PrimaryCall # evs @ [SynthCall (min durationSeconds 30)],
                          reply = errorResponse error\<rparr>)))"

text \<open>
  The tier that served a request is the tier of the last call, when the reply is audio.
\<close>

fun tierOf :: "event \<Rightarrow> tier" where
  "tierOf PrimaryCall = Primary"
| "tierOf (SecondaryCall model duration) = Secondary"
| "tierOf (SynthCall duration) = LocalSynthesis"

definition servedBy :: "outcome \<Rightarrow> tier option" where
  "servedBy out =
     (case body (reply out) of
        JsonBody e m \<Rightarrow> None
      | AudioBody b \<Rightarrow> (case calls out of [] \<Rightarrow> None | evs \<Rightarrow> Some (tierOf (last evs))))"

subsection \<open>Notions the claims speak of\<close>

text \<open>The value of a response header, if the handler set it.\<close>

definition header :: "response \<Rightarrow> string \<Rightarrow> header_value option" where
  "header r name = map_of (headers r) name"



text \<open>
  The waveform as the specification words it, in exact arithmetic: the base frequency
  is taken from the 8-note C4 major scale by \<open>noteIndex = floor(i / samplesPerNote) mod totalNotes\<close> and
  \<open>scaleIndex = noteIndex mod 8\<close>, and the sample is
  \<open>(sin(2 pi baseFreq t) + 0.5 sin(2 pi (baseFreq/2) t)) / 1.5\<close> with \<open>t = i/44100\<close>, multiplied
  by the per-note envelope, the global fade and 12000.
\<close>

definition specBaseFreq :: "int \<Rightarrow> nat \<Rightarrow> real" where
  "specBaseFreq durationSeconds i =
     [261.63, 293.66, 329.63, 349.23, 392.00, 440.00, 493.88, 523.25]
       ! nat (((int i div samplesPerNote) mod totalNotes durationSeconds) mod 8)"

definition specValue :: "int \<Rightarrow> nat \<Rightarrow> real" where
  "specValue durationSeconds i =
     (let baseFreq = specBaseFreq durationSeconds i;
          t = real i / 44100
      in (sin (2 * pi * baseFreq * t) + 0.5 * sin (2 * pi * (baseFreq / 2) * t)) / 1.5
           * envelope i * globalEnvelope durationSeconds i * 12000)"

text \<open>Truncation toward zero (\<^verbatim>\<open>Math.trunc\<close>), which the route does not use.\<close>

definition truncTowardZero :: "real \<Rightarrow> int" where
  "truncTowardZero x = (if x < 0 then \<lceil>x\<rceil> else \<lfloor>x\<rfloor>)"

text \<open>
  Two environments for concrete runs: in the first every provider rejects; in the
  second the primary provider rejects, the first secondary model resolves with an empty
  payload and the second with three bytes.
\<close>

definition allDown :: environment where
  "allDown =
     \<lparr>elevenLabs = (\<lambda>p ms. Rejects ''Request failed with status code 503''),
      huggingFace = (\<lambda>model p d. Rejects ''Request failed with status code 503''),
      uninitialised = (\<lambda>k. 0),
      dateNow = 0\<rparr>"

definition secondAnswers :: environment where
  "secondAnswers =
     \<lparr>elevenLabs = (\<lambda>p ms. Rejects ''Request failed with status code 503''),
      huggingFace = (\<lambda>model p d.
        if model = ''facebook/musicgen-small'' then Resolves []
        else if model = ''facebook/musicgen-medium'' then Resolves [1, 2, 3]
        else Rejects ''Request failed with status code 503''),
      uninitialised = (\<lambda>k. 0),
      dateNow = 0\<rparr>"

text \<open>
  The bytes of the first \<open>n\<close> samples, two per sample, least significant byte first:
  what the loop has stored after \<open>n\<close> iterations.
\<close>

definition pcmBytes :: "int \<Rightarrow> nat \<Rightarrow> buffer" where
  "pcmBytes d n = concat (map (\<lambda>i. [byteAt (amplitude d i) 0, byteAt (amplitude d i) 1]) [0..<n])"

subsection \<open>The waveform in the arithmetic of the platform\<close>

text \<open>
  The loop body once more, with the arithmetic of the platform left open. The numbers of
  JavaScript are IEEE doubles: every operation returns the rounding of its exact result,
  and \<^verbatim>\<open>Math.sin\<close> is a function of the platform. An \<open>arithmetic\<close> gives the rounding
  \<open>rnd\<close> and the sine \<open>mathSin\<close>; nothing is assumed of either, so what holds for every
  arithmetic holds for the doubles of the program and for exact arithmetic alike.
  \<^verbatim>\<open>Math.PI\<close> and the decimal literals \<open>0.1\<close>, \<open>0.9\<close> and the frequencies of the scale
  are the rounded values. Counts and offsets are integers, and the literals \<open>0.5\<close>,
  \<open>1.5\<close>, \<open>1.0\<close>, \<open>2\<close> and \<open>12000\<close> are doubles themselves. \<^verbatim>\<open>Math.floor\<close>,
  \<^verbatim>\<open>Math.min\<close> and the comparisons are exact.
\<close>

record arithmetic =
  rnd :: "real \<Rightarrow> real"
  mathSin :: "real \<Rightarrow> real"

definition mathPI :: "arithmetic \<Rightarrow> real" where
  "mathPI ar = rnd ar pi"

definition noteIndexIn :: "arithmetic \<Rightarrow> int \<Rightarrow> nat \<Rightarrow> int" where
  "noteIndexIn ar durationSeconds i =
     \<lfloor>rnd ar (real i / real_of_int samplesPerNote)\<rfloor> mod totalNotes durationSeconds"

definition scaleIndexIn :: "arithmetic \<Rightarrow> int \<Rightarrow> nat \<Rightarrow> int" where
  "scaleIndexIn ar durationSeconds i = noteIndexIn ar durationSeconds i mod int (length scale)"

definition frequencyIn :: "arithmetic \<Rightarrow> int \<Rightarrow> nat \<Rightarrow> real" where
  "frequencyIn ar durationSeconds i = rnd ar (scale ! nat (scaleIndexIn ar durationSeconds i))"

definition sampleIn :: "arithmetic \<Rightarrow> int \<Rightarrow> nat \<Rightarrow> real" where
  "sampleIn ar durationSeconds i =
     (let baseFreq = frequencyIn ar durationSeconds i;
          harmonyFreq = rnd ar (frequencyIn ar durationSeconds i * 0.5);
          t = rnd ar (real i / real_of_int sampleRate);
          sample1 = mathSin ar (rnd ar (rnd ar (rnd ar (2 * mathPI ar) * baseFreq) * t));
          sample2 = rnd ar (mathSin ar (rnd ar (rnd ar (rnd ar (2 * mathPI ar) * harmonyFreq) * t))
                            * 0.5)
      in rnd ar (rnd ar (sample1 + sample2) / 1.5))"

definition notePositionIn :: "arithmetic \<Rightarrow> nat \<Rightarrow> real" where
  "notePositionIn ar i =
     rnd ar (real_of_int (int i mod samplesPerNote) / real_of_int samplesPerNote)"

definition envelopeIn :: "arithmetic \<Rightarrow> nat \<Rightarrow> real" where
  "envelopeIn ar i =
     (if notePositionIn ar i < rnd ar 0.1 then rnd ar (notePositionIn ar i / rnd ar 0.1)
      else if notePositionIn ar i > rnd ar 0.9
        then rnd ar (rnd ar (1 - notePositionIn ar i) / rnd ar 0.1)
      else 1.0)"

definition globalEnvelopeIn :: "arithmetic \<Rightarrow> int \<Rightarrow> nat \<Rightarrow> real" where
  "globalEnvelopeIn ar durationSeconds i =
     (let numSamples = sampleRate * durationSeconds
      in min 1 (min (rnd ar (real i / rnd ar (real_of_int sampleRate * rnd ar 0.1)))
                    (rnd ar ((real_of_int numSamples - real i)
                             / rnd ar (real_of_int sampleRate * rnd ar 0.1)))))"

definition amplitudeIn :: "arithmetic \<Rightarrow> int \<Rightarrow> nat \<Rightarrow> int" where
  "amplitudeIn ar durationSeconds i =
     \<lfloor>rnd ar (rnd ar (rnd ar (sampleIn ar durationSeconds i * envelopeIn ar i)
                         * globalEnvelopeIn ar durationSeconds i) * 12000)\<rfloor>"

text \<open>The loop, the PCM buffer and the container, as before.\<close>

fun writeSamplesIn :: "arithmetic \<Rightarrow> int \<Rightarrow> nat list \<Rightarrow> buffer \<Rightarrow> js_error + buffer" where
  "writeSamplesIn ar durationSeconds [] buffer = Inr buffer"
| "writeSamplesIn ar durationSeconds (i # rest) buffer =
     andThen (writeInt16LE (amplitudeIn ar durationSeconds i) (i * 2) buffer)
       (writeSamplesIn ar durationSeconds rest)"

definition synthesizeIn :: "arithmetic \<Rightarrow> (nat \<Rightarrow> byte) \<Rightarrow> int \<Rightarrow> js_error + buffer" where
  "synthesizeIn ar garbage durationSeconds =
     (let numSamples = sampleRate * durationSeconds
      in andThen (allocUnsafe garbage (numSamples * 2))
           (writeSamplesIn ar durationSeconds [0..<nat numSamples]))"

definition generateSimpleToneIn ::
  "arithmetic \<Rightarrow> (nat \<Rightarrow> byte) \<Rightarrow> int \<Rightarrow> js_error + buffer" where
  "generateSimpleToneIn ar garbage durationSeconds =
     andThen (synthesizeIn ar garbage durationSeconds)
       (\<lambda>buffer. createWavFile buffer sampleRate)"

text \<open>Exact arithmetic: no rounding, the real sine.\<close>

definition exactArithmetic :: arithmetic where
  "exactArithmetic = \<lparr>rnd = (\<lambda>x. x), mathSin = sin\<rparr>"

text \<open>
  The waveform as the specification words it, in a given arithmetic: \<open>baseFreq\<close> from
  the scale by \<open>noteIndex = floor(i / samplesPerNote) mod totalNotes\<close> and
  \<open>scaleIndex = noteIndex mod 8\<close>, the mix
  \<open>(sin(2 pi baseFreq t) + 0.5 sin(2 pi (baseFreq/2) t)) / 1.5\<close> with \<open>t = i/44100\<close>, times
  the per-note envelope, the global fade and 12000.
\<close>

definition specBaseFreqIn :: "arithmetic \<Rightarrow> int \<Rightarrow> nat \<Rightarrow> real" where
  "specBaseFreqIn ar durationSeconds i =
     rnd ar ([261.63, 293.66, 329.63, 349.23, 392.00, 440.00, 493.88, 523.25]
       ! nat ((\<lfloor>rnd ar (real i / real_of_int samplesPerNote)\<rfloor>
                 mod totalNotes durationSeconds) mod 8))"

definition specValueIn :: "arithmetic \<Rightarrow> int \<Rightarrow> nat \<Rightarrow> real" where
  "specValueIn ar durationSeconds i =
     (let baseFreq = specBaseFreqIn ar durationSeconds i;
          t = rnd ar (real i / 44100);
          voice1 = mathSin ar (rnd ar (rnd ar (rnd ar (2 * mathPI ar) * baseFreq) * t));
          voice2 = rnd ar (0.5 * mathSin ar
                     (rnd ar (rnd ar (rnd ar (2 * mathPI ar) * rnd ar (baseFreq / 2)) * t)));
          mix = rnd ar (rnd ar (voice1 + voice2) / 1.5)
      in rnd ar (rnd ar (rnd ar (mix * envelopeIn ar i) * globalEnvelopeIn ar durationSeconds i)
                 * 12000))"

text \<open>The bytes of the first \<open>n\<close> samples in a given arithmetic.\<close>

definition pcmBytesIn :: "arithmetic \<Rightarrow> int \<Rightarrow> nat \<Rightarrow> buffer" where
  "pcmBytesIn ar d n =
     concat (map (\<lambda>i. [byteAt (amplitudeIn ar d i) 0, byteAt (amplitudeIn ar d i) 1]) [0..<n])"

section \<open>Properties\<close>

subsection \<open>The encoder\<close>

lemma length_wavHeaderBytes: "length (wavHeaderBytes dataSize rate) = 44"
  by (simp add: wavHeaderBytes_def)

lemma list_update_Cons_numeral: "(x # xs)[numeral v := y] = x # xs[numeral v - 1 := y]"
  by (simp add: numeral_eq_Suc)

lemma replicate_numeral: "replicate (numeral v) x = x # replicate (numeral v - 1) x"
  by (simp add: numeral_eq_Suc)

lemma alloc_44:
  "alloc 44 = [0,0,0,0, 0,0,0,0, 0,0,0,0, 0,0,0,0, 0,0,0,0, 0,0,0,0,
               0,0,0,0, 0,0,0,0, 0,0,0,0, 0,0,0,0, 0,0,0,0]"
  by (simp add: alloc_def replicate_numeral)

lemma createWavFile_ok:
  assumes "int (length audioData) \<le> 4294967259" "0 \<le> rate" "rate \<le> 2147483647"
  shows "createWavFile audioData rate
           = Inr (wavHeaderBytes (int (length audioData)) rate @ audioData)"
  using assms
  by (simp add: createWavFile_def wavHeaderBytes_def andThen_def writeUInt32LE_def
      writeUInt16LE_def checkInt_def checkBounds_def writeString_def alloc_44 Let_def
      list_update_Cons_numeral)

lemma uint_byteAt: "uint (byteAt v k) = v div 2 ^ (8 * k) mod 256"
  by (simp add: byteAt_def uint_word_of_int)

lemma div_small:
  fixes v :: int
  assumes "0 \<le> v" "v < b * 256" "0 < b"
  shows "v div b mod 256 = v div b"
proof -
  have "(v - b * 256) div b = v div b - 256"
    using assms(3) div_mult_self2 [of b v "- 256"] by simp
  moreover have "(v - b * 256) div b < 0"
    using assms by (simp add: pos_imp_zdiv_neg_iff)
  ultimately have "v div b < 256"
    by simp
  moreover have "0 \<le> v div b"
    using assms by (simp add: pos_imp_zdiv_nonneg_iff)
  ultimately show ?thesis by simp
qed

lemma le16_decode:
  fixes v :: int
  shows "v mod 256 + 256 * (v div 256) = v"
  by simp

lemma le32_decode:
  fixes v :: int
  shows "v mod 256 + 256 * (v div 256 mod 256) + 65536 * (v div 65536 mod 256)
           + 16777216 * (v div 16777216) = v"
proof -
  have a: "v div 65536 = v div 256 div 256"
    using zdiv_zmult2_eq [of 256 v 256] by simp
  have b: "v div 16777216 = v div 256 div 256 div 256"
    using zdiv_zmult2_eq [of 256 "v div 256" 256] zdiv_zmult2_eq [of 65536 v 256] by simp
  define q1 where "q1 = v div 256"
  define q2 where "q2 = q1 div 256"
  define q3 where "q3 = q2 div 256"
  define r0 where "r0 = v mod 256"
  define r1 where "r1 = q1 mod 256"
  define r2 where "r2 = q2 mod 256"
  have e1: "v = r0 + 256 * q1" unfolding q1_def r0_def by simp
  have e2: "q1 = r1 + 256 * q2" unfolding q2_def r1_def by simp
  have e3: "q2 = r2 + 256 * q3" unfolding q3_def r2_def by simp
  have "r0 + 256 * r1 + 65536 * r2 + 16777216 * q3 = v"
    using e1 e2 e3 by linarith
  then show ?thesis
    unfolding a b q1_def q2_def q3_def r0_def r1_def r2_def .
qed

lemma readUInt32LE_written:
  assumes "0 \<le> v" "v \<le> 4294967295"
  shows "readUInt32LE [byteAt v 0, byteAt v 1, byteAt v 2, byteAt v 3] 0 = v"
proof -
  have t: "v div 16777216 mod 256 = v div 16777216"
    using assms by (intro div_small) simp_all
  have "readUInt32LE [byteAt v 0, byteAt v 1, byteAt v 2, byteAt v 3] 0
      = v mod 256 + 256 * (v div 256 mod 256) + 65536 * (v div 65536 mod 256)
           + 16777216 * (v div 16777216 mod 256)"
    by (simp add: readUInt32LE_def uint_byteAt)
  also have "\<dots> = v"
    unfolding t by (rule le32_decode)
  finally show ?thesis .
qed

lemma readUInt16LE_raw:
  "readUInt16LE [byteAt v 0, byteAt v 1] 0 = v mod 256 + 256 * (v div 256 mod 256)"
  by (simp add: readUInt16LE_def uint_byteAt)

lemma readUInt16LE_written:
  assumes "0 \<le> v" "v \<le> 65535"
  shows "readUInt16LE [byteAt v 0, byteAt v 1] 0 = v"
proof -
  have t: "v div 256 mod 256 = v div 256"
    using assms by (intro div_small) simp_all
  show ?thesis
    unfolding readUInt16LE_raw t by (rule le16_decode)
qed

lemma readInt16LE_written:
  assumes "- 32768 \<le> v" "v \<le> 32767"
  shows "readInt16LE [byteAt v 0, byteAt v 1] 0 = v"
proof (cases "0 \<le> v")
  case True
  then have "readUInt16LE [byteAt v 0, byteAt v 1] 0 = v"
    using assms by (intro readUInt16LE_written) simp_all
  then show ?thesis
    using assms by (simp add: readInt16LE_def)
next
  case False
  define w where "w = v + 65536"
  have w: "0 \<le> w" "w \<le> 65535" "32768 \<le> w"
    using assms False by (simp_all add: w_def)
  have "w div 256 = v div 256 + 256"
    unfolding w_def using div_mult_self2 [of 256 v 256] by simp
  then have h: "w div 256 mod 256 = v div 256 mod 256"
    by simp
  have l: "w mod 256 = v mod 256"
    unfolding w_def using mod_mult_self2 [of v 256 256] by simp
  have "readUInt16LE [byteAt v 0, byteAt v 1] 0 = readUInt16LE [byteAt w 0, byteAt w 1] 0"
    unfolding readUInt16LE_raw h l ..
  also have "\<dots> = w"
    using w by (intro readUInt16LE_written)
  finally have "readUInt16LE [byteAt v 0, byteAt v 1] 0 = w" .
  then show ?thesis
    using w by (simp add: readInt16LE_def w_def)
qed

lemma readUInt32LE_drop:
  "offset + 3 < length buf \<Longrightarrow> readUInt32LE buf offset = readUInt32LE (take 4 (drop offset buf)) 0"
  by (simp add: readUInt32LE_def add.commute)

lemma readUInt16LE_drop:
  "offset + 1 < length buf \<Longrightarrow> readUInt16LE buf offset = readUInt16LE (take 2 (drop offset buf)) 0"
  by (simp add: readUInt16LE_def add.commute)

lemma readInt16LE_drop:
  "offset + 1 < length buf \<Longrightarrow> readInt16LE buf offset = readInt16LE (take 2 (drop offset buf)) 0"
  by (simp add: readInt16LE_def readUInt16LE_def add.commute)

lemma readUInt32LE_at:
  assumes "take 4 (drop offset buf) = [byteAt v 0, byteAt v 1, byteAt v 2, byteAt v 3]"
    and "0 \<le> v" "v \<le> 4294967295"
  shows "readUInt32LE buf offset = v"
proof -
  have "length (take 4 (drop offset buf)) = 4"
    unfolding assms(1) by simp
  then have "offset + 3 < length buf"
    by simp
  then show ?thesis
    using assms by (simp only: readUInt32LE_drop readUInt32LE_written)
qed

lemma readUInt16LE_at:
  assumes "take 2 (drop offset buf) = [byteAt v 0, byteAt v 1]"
    and "0 \<le> v" "v \<le> 65535"
  shows "readUInt16LE buf offset = v"
proof -
  have "length (take 2 (drop offset buf)) = 2"
    unfolding assms(1) by simp
  then have "offset + 1 < length buf"
    by simp
  then show ?thesis
    using assms by (simp only: readUInt16LE_drop readUInt16LE_written)
qed

lemma wavLayout_header:
  assumes "int (length audioData) \<le> 4294967259" "0 \<le> rate" "rate \<le> 2147483647"
  shows "wavLayout (wavHeaderBytes (int (length audioData)) rate @ audioData)
           audioData rate"
proof -
  let ?n = "int (length audioData)"
  let ?wav = "wavHeaderBytes ?n rate @ audioData"
  have r4: "readUInt32LE ?wav 4 = 36 + ?n"
    using assms by (intro readUInt32LE_at) (simp_all add: wavHeaderBytes_def)
  have r24: "readUInt32LE ?wav 24 = rate"
    using assms by (intro readUInt32LE_at) (simp_all add: wavHeaderBytes_def)
  have r28: "readUInt32LE ?wav 28 = rate * 1 * 16 div 8"
    using assms by (intro readUInt32LE_at) (simp_all add: wavHeaderBytes_def)
  have r40: "readUInt32LE ?wav 40 = ?n"
    using assms by (intro readUInt32LE_at) (simp_all add: wavHeaderBytes_def)
  have r16: "readUInt32LE ?wav 16 = 16"
    by (intro readUInt32LE_at) (simp_all add: wavHeaderBytes_def)
  have r20: "readUInt16LE ?wav 20 = 1"
    by (intro readUInt16LE_at) (simp_all add: wavHeaderBytes_def)
  have r22: "readUInt16LE ?wav 22 = 1"
    by (intro readUInt16LE_at) (simp_all add: wavHeaderBytes_def)
  have r32: "readUInt16LE ?wav 32 = 1 * 16 div 8"
    by (intro readUInt16LE_at) (simp_all add: wavHeaderBytes_def)
  have r34: "readUInt16LE ?wav 34 = 16"
    by (intro readUInt16LE_at) (simp_all add: wavHeaderBytes_def)
  have tags: "take 4 ?wav = map of_char ''RIFF''" "take 4 (drop 8 ?wav) = map of_char ''WAVE''"
    "take 4 (drop 12 ?wav) = map of_char ''fmt ''" "take 4 (drop 36 ?wav) = map of_char ''data''"
    by (simp_all add: wavHeaderBytes_def)
  have "length ?wav = 44 + length audioData" "take 44 ?wav = wavHeaderBytes ?n rate"
    "drop 44 ?wav = audioData"
    by (simp_all add: length_wavHeaderBytes)
  then show ?thesis
    unfolding wavLayout_def
    using r4 r16 r20 r22 r24 r28 r32 r34 r40 tags
    by blast
qed

text \<open>
  C5 (as amended). For every payload of at most 4294967259 bytes and every sample rate
  from 0 to 2147483647, the encoder returns a 44-byte header followed by the payload:
  the tag RIFF at offsets 0 to 3, WAVE at 8 to 11, data at 36 to 39, and every integer
  field, read back little-endian, holds its value: file size \<open>36 + dataSize\<close>, byte rate
  \<open>sampleRate * channels * bitsPerSample / 8\<close> and block alignment
  \<open>channels * bitsPerSample / 8\<close> for one channel and 16 bits per sample.
\<close>

theorem createWavFile_layout:
  assumes "int (length audioData) \<le> 4294967259" "0 \<le> rate" "rate \<le> 2147483647"
  shows "\<exists>wav. createWavFile audioData rate = Inr wav \<and> wavLayout wav audioData rate"
  using assms createWavFile_ok wavLayout_header by simp

theorem createWavFile_layout_witness:
  "\<exists>wav. createWavFile [1, 2] 44100 = Inr wav \<and> wavLayout wav [1, 2] 44100"
  using createWavFile_layout [of "[1, 2]" 44100] by simp

text \<open>
  C5 as stated, for every sample rate, fails: at the sample rate \<open>2147483648\<close> the byte
  rate \<open>4294967296\<close> is outside the range of \<^verbatim>\<open>writeUInt32LE\<close>, which throws, and the
  encoder returns no container.
\<close>

theorem createWavFile_range_counterexample:
  "createWavFile [] 2147483648 = Inl (ERR_OUT_OF_RANGE ''value'')"
  by (simp add: createWavFile_def andThen_def writeUInt32LE_def writeUInt16LE_def
      checkInt_def checkBounds_def writeString_def alloc_44 Let_def list_update_Cons_numeral)

subsection \<open>The synthesizer\<close>

lemma samplesPerNote_eq: "samplesPerNote = 22050"
  by (simp add: samplesPerNote_def sampleRate_def notesPerSecond_def)

lemma totalNotes_eq: "totalNotes d = d * 2"
proof -
  have "real_of_int d * 2 = real_of_int (d * 2)" by simp
  then show ?thesis
    by (simp only: totalNotes_def notesPerSecond_def ceiling_of_int of_int_numeral)
qed

lemma mix_bound:
  fixes a b :: real
  assumes "\<bar>a\<bar> \<le> 1" "\<bar>b\<bar> \<le> 1"
  shows "\<bar>(a + b * 0.5) / 1.5\<bar> \<le> 1"
proof -
  have "\<bar>a + b * 0.5\<bar> \<le> 1.5"
    using assms by linarith
  then have "\<bar>a + b * 0.5\<bar> / 1.5 \<le> 1"
    by simp
  then show ?thesis
    by (simp only: abs_divide)
qed

lemma sample_bound: "\<bar>sample d i\<bar> \<le> 1"
  unfolding sample_def Let_def by (rule mix_bound) simp_all

lemma notePosition_range: "0 \<le> notePosition i" "notePosition i < 1"
  by (simp_all add: notePosition_def samplesPerNote_eq)

lemma envelope_range: "0 \<le> envelope i" "envelope i \<le> 1"
  using notePosition_range [of i] by (simp_all add: envelope_def)

lemma globalEnvelope_range:
  assumes "int i < sampleRate * d"
  shows "0 \<le> globalEnvelope d i" "globalEnvelope d i \<le> 1"
  using assms by (simp_all add: globalEnvelope_def Let_def sampleRate_def)

lemma amplitude_bound:
  assumes "int i < sampleRate * d"
  shows "\<bar>amplitude d i\<bar> \<le> 12000"
proof -
  define s where "s = sample d i"
  define e where "e = envelope i"
  define g where "g = globalEnvelope d i"
  have s: "\<bar>s\<bar> \<le> 1" unfolding s_def by (rule sample_bound)
  have e: "0 \<le> e" "e \<le> 1" unfolding e_def by (rule envelope_range)+
  have g: "0 \<le> g" "g \<le> 1" unfolding g_def using assms by (rule globalEnvelope_range)+
  have eg: "0 \<le> e * g" "e * g \<le> 1"
    using e g by (simp_all add: mult_le_one)
  have "\<bar>s * (e * g)\<bar> = \<bar>s\<bar> * (e * g)"
    using e g by (simp add: abs_mult)
  also have "\<dots> \<le> 1"
    using mult_le_one [of "\<bar>s\<bar>" "e * g"] s eg by simp
  finally have "\<bar>s * (e * g)\<bar> \<le> 1" .
  then have "- 12000 \<le> s * (e * g) * 12000" "s * (e * g) * 12000 \<le> 12000"
    by linarith+
  then have "- 12000 \<le> \<lfloor>s * (e * g) * 12000\<rfloor>" "\<lfloor>s * (e * g) * 12000\<rfloor> \<le> 12000"
    by (simp_all add: le_floor_iff floor_le_iff)
  moreover have "amplitude d i = \<lfloor>s * (e * g) * 12000\<rfloor>"
    by (simp add: amplitude_def s_def e_def g_def mult.assoc)
  ultimately show ?thesis
    by linarith
qed

lemma length_pcmBytes: "length (pcmBytes d n) = 2 * n"
  by (induction n) (simp_all add: pcmBytes_def)

lemma pcmBytes_Suc:
  "pcmBytes d (Suc n) = pcmBytes d n @ [byteAt (amplitude d n) 0, byteAt (amplitude d n) 1]"
  by (simp add: pcmBytes_def)

lemma andThen_Inr: "andThen (Inr x) f = f x"
  by (simp add: andThen_def)

lemma andThen_Inl: "andThen (Inl e) f = Inl e"
  by (simp add: andThen_def)

lemma writeInt16LE_ok:
  assumes "- 32768 \<le> v" "v \<le> 32767" "offset + 2 \<le> length buf"
  shows "writeInt16LE v offset buf = Inr (buf[offset := byteAt v 0, offset + 1 := byteAt v 1])"
  using assms by (simp add: writeInt16LE_def checkInt_def checkBounds_def)

lemma writeSamples_append:
  "writeSamples d (xs @ ys) buf = andThen (writeSamples d xs buf) (writeSamples d ys)"
proof (induction xs arbitrary: buf)
  case Nil
  show ?case by (simp add: andThen_Inr)
next
  case (Cons i xs)
  show ?case
    by (cases "writeInt16LE (amplitude d i) (i * 2) buf") (simp_all add: andThen_Inr andThen_Inl Cons.IH)
qed

lemma update_two:
  assumes "2 \<le> length ys"
  shows "(xs @ ys)[length xs := a, length xs + 1 := b] = xs @ [a, b] @ drop 2 ys"
proof -
  obtain y1 y2 zs where ys: "ys = y1 # y2 # zs"
    using assms by (cases ys; cases "tl ys") auto
  show ?thesis
    by (simp add: ys list_update_append)
qed

lemma writeSamples_upt:
  assumes "int n \<le> sampleRate * d" "2 * n \<le> length buf"
  shows "writeSamples d [0..<n] buf = Inr (pcmBytes d n @ drop (2 * n) buf)"
  using assms
proof (induction n)
  case 0
  show ?case by (simp add: pcmBytes_def)
next
  case (Suc n)
  let ?a = "amplitude d n"
  have prev: "writeSamples d [0..<n] buf = Inr (pcmBytes d n @ drop (2 * n) buf)"
    using Suc by simp
  have "\<bar>?a\<bar> \<le> 12000"
    using Suc.prems by (intro amplitude_bound) simp
  then have range: "- 32768 \<le> ?a" "?a \<le> 32767"
    by linarith+
  have len: "2 \<le> length (drop (2 * n) buf)"
    using Suc.prems by simp
  have "writeInt16LE ?a (n * 2) (pcmBytes d n @ drop (2 * n) buf)
      = Inr ((pcmBytes d n @ drop (2 * n) buf)[n * 2 := byteAt ?a 0, n * 2 + 1 := byteAt ?a 1])"
    using range len by (intro writeInt16LE_ok) (simp_all add: length_pcmBytes)
  also have "(pcmBytes d n @ drop (2 * n) buf)[n * 2 := byteAt ?a 0, n * 2 + 1 := byteAt ?a 1]
      = pcmBytes d n @ [byteAt ?a 0, byteAt ?a 1] @ drop 2 (drop (2 * n) buf)"
    using update_two [OF len, of "pcmBytes d n"] by (simp add: length_pcmBytes mult.commute)
  also have "\<dots> = pcmBytes d (Suc n) @ drop (2 * Suc n) buf"
    by (simp add: pcmBytes_Suc add.commute)
  finally have step: "writeInt16LE ?a (n * 2) (pcmBytes d n @ drop (2 * n) buf)
      = Inr (pcmBytes d (Suc n) @ drop (2 * Suc n) buf)" .
  have "writeSamples d [0..<Suc n] buf
      = andThen (writeSamples d [0..<n] buf) (writeSamples d [n])"
    using writeSamples_append [of d "[0..<n]" "[n]" buf] by simp
  also have "\<dots> = writeSamples d [n] (pcmBytes d n @ drop (2 * n) buf)"
    by (simp only: prev andThen_Inr)
  also have "\<dots> = Inr (pcmBytes d (Suc n) @ drop (2 * Suc n) buf)"
    by (simp add: step andThen_Inr)
  finally show ?case .
qed

lemma synthesize_ok:
  assumes "0 \<le> d" "sampleRate * d * 2 \<le> kMaxLength"
  shows "synthesize g d = Inr (pcmBytes d (nat (sampleRate * d)))"
proof -
  let ?n = "nat (sampleRate * d)"
  have n: "int ?n = sampleRate * d"
    using assms by (simp add: sampleRate_def)
  have alloc: "allocUnsafe g (sampleRate * d * 2) = Inr (map g [0..<nat (sampleRate * d * 2)])"
    using assms by (simp add: allocUnsafe_def sampleRate_def)
  have len: "length (map g [0..<nat (sampleRate * d * 2)]) = 2 * ?n"
    using assms by (simp add: sampleRate_def nat_mult_distrib)
  have "writeSamples d [0..<?n] (map g [0..<nat (sampleRate * d * 2)])
      = Inr (pcmBytes d ?n @ drop (2 * ?n) (map g [0..<nat (sampleRate * d * 2)]))"
    using n len by (intro writeSamples_upt) simp_all
  also have "drop (2 * ?n) (map g [0..<nat (sampleRate * d * 2)]) = []"
    using len by simp
  finally show ?thesis
    by (simp add: synthesize_def Let_def alloc andThen_Inr)
qed

lemma synthesize_throws:
  assumes "d < 0 \<or> kMaxLength < sampleRate * d * 2"
  shows "synthesize g d = Inl (ERR_OUT_OF_RANGE ''size'')"
  using assms by (auto simp add: synthesize_def Let_def allocUnsafe_def andThen_Inl sampleRate_def)

lemma pcmBytes_sample_bytes:
  assumes "i < n"
  shows "take 2 (drop (2 * i) (pcmBytes d n)) = [byteAt (amplitude d i) 0, byteAt (amplitude d i) 1]"
  using assms
proof (induction n)
  case 0
  then show ?case by simp
next
  case (Suc n)
  show ?case
  proof (cases "i < n")
    case True
    then have "2 * i + 2 \<le> length (pcmBytes d n)"
      by (simp add: length_pcmBytes)
    then show ?thesis
      using Suc.IH [OF True] by (simp add: pcmBytes_Suc)
  next
    case False
    then have "i = n" using Suc.prems by simp
    then show ?thesis
      by (simp add: pcmBytes_Suc length_pcmBytes)
  qed
qed

lemma readInt16LE_at:
  assumes "take 2 (drop offset buf) = [byteAt v 0, byteAt v 1]"
    and "- 32768 \<le> v" "v \<le> 32767"
  shows "readInt16LE buf offset = v"
proof -
  have "length (take 2 (drop offset buf)) = 2"
    unfolding assms(1) by simp
  then have "offset + 1 < length buf"
    by simp
  then show ?thesis
    using assms by (simp only: readInt16LE_drop readInt16LE_written)
qed

lemma pcmBytes_sample:
  assumes "i < n" "int n \<le> sampleRate * d"
  shows "readInt16LE (pcmBytes d n) (2 * i) = amplitude d i"
proof -
  have "\<bar>amplitude d i\<bar> \<le> 12000"
    using assms by (intro amplitude_bound) simp
  then have "- 32768 \<le> amplitude d i" "amplitude d i \<le> 32767"
    by linarith+
  then show ?thesis
    using pcmBytes_sample_bytes [OF assms(1), of d] by (intro readInt16LE_at)
qed

lemma synthesize_cases:
  "synthesize g d = Inl (ERR_OUT_OF_RANGE ''size'') \<or>
   (0 \<le> d \<and> synthesize g d = Inr (pcmBytes d (nat (sampleRate * d))))"
proof (cases "d < 0 \<or> kMaxLength < sampleRate * d * 2")
  case True
  then show ?thesis by (simp add: synthesize_throws)
next
  case False
  then show ?thesis by (simp add: synthesize_ok)
qed

lemma synthesize_short:
  assumes "0 \<le> d" "d \<le> 30"
  shows "synthesize g d = Inr (pcmBytes d (nat (sampleRate * d)))"
  using assms by (intro synthesize_ok) (simp_all add: sampleRate_def kMaxLength_def)

lemma generateSimpleTone_short:
  assumes "0 \<le> d" "d \<le> 30"
  shows "generateSimpleTone g d
    = Inr (wavHeaderBytes (sampleRate * d * 2) sampleRate @ pcmBytes d (nat (sampleRate * d)))"
proof -
  let ?pcm = "pcmBytes d (nat (sampleRate * d))"
  have len: "int (length ?pcm) = sampleRate * d * 2"
    using assms by (simp add: length_pcmBytes sampleRate_def)
  have "sampleRate * d * 2 \<le> 4294967259"
    using assms by (simp add: sampleRate_def)
  then have b: "int (length ?pcm) \<le> 4294967259"
    by (simp only: len)
  have "createWavFile ?pcm sampleRate = Inr (wavHeaderBytes (int (length ?pcm)) sampleRate @ ?pcm)"
    by (rule createWavFile_ok [OF b]) (simp_all add: sampleRate_def)
  then show ?thesis
    using assms by (simp add: generateSimpleTone_def synthesize_short andThen_Inr len)
qed

text \<open>
  C4. For every duration from 1 to 30 the synthesizer returns a PCM buffer of exactly
  \<open>44100 * durationSeconds\<close> samples of two bytes, the encoder returns a container for
  it (which is the result of \<^verbatim>\<open>generateSimpleTone\<close>), the data-size field of the
  container is the byte length of the buffer, and the file-size field is 36 more.
\<close>

theorem synthesize_sizes:
  assumes "1 \<le> d" "d \<le> 30"
  shows "\<exists>pcm wav. synthesize g d = Inr pcm \<and> int (length pcm) = 44100 * d * 2 \<and>
           createWavFile pcm sampleRate = Inr wav \<and> generateSimpleTone g d = Inr wav \<and>
           readUInt32LE wav 40 = int (length pcm) \<and>
           readUInt32LE wav 4 = 36 + readUInt32LE wav 40"
proof -
  let ?pcm = "pcmBytes d (nat (sampleRate * d))"
  let ?wav = "wavHeaderBytes (int (length ?pcm)) sampleRate @ ?pcm"
  have s: "synthesize g d = Inr ?pcm"
    using assms by (intro synthesize_short) simp_all
  have len: "int (length ?pcm) = 44100 * d * 2"
    using assms by (simp add: length_pcmBytes sampleRate_def)
  have "44100 * d * 2 \<le> 4294967259"
    using assms by simp
  then have b: "int (length ?pcm) \<le> 4294967259"
    by (simp only: len)
  have w: "createWavFile ?pcm sampleRate = Inr ?wav"
    by (rule createWavFile_ok [OF b]) (simp_all add: sampleRate_def)
  have l: "wavLayout ?wav ?pcm sampleRate"
    by (rule wavLayout_header [OF b]) (simp_all add: sampleRate_def)
  have "generateSimpleTone g d = Inr ?wav"
    by (simp add: generateSimpleTone_def s andThen_Inr w)
  moreover have "readUInt32LE ?wav 40 = int (length ?pcm)"
    "readUInt32LE ?wav 4 = 36 + readUInt32LE ?wav 40"
    using l by (simp_all add: wavLayout_def)
  ultimately show ?thesis
    using s len w by blast
qed

theorem synthesize_sizes_witness:
  "\<exists>pcm wav. synthesize (\<lambda>k. 0) 1 = Inr pcm \<and> int (length pcm) = 88200 \<and>
     createWavFile pcm sampleRate = Inr wav \<and> generateSimpleTone (\<lambda>k. 0) 1 = Inr wav \<and>
     readUInt32LE wav 40 = int (length pcm) \<and> readUInt32LE wav 4 = 36 + readUInt32LE wav 40"
  using synthesize_sizes [of 1 "\<lambda>k. 0"] by simp



text \<open>
  C7. The result of the synthesizer does not depend on the uninitialised memory it
  allocates, and it has no other input than the duration (no clock, no random source):
  two calls with the same duration return the same bytes, or throw the same error.
\<close>

theorem generateSimpleTone_deterministic:
  "generateSimpleTone g1 d = generateSimpleTone g2 d \<and> synthesize g1 d = synthesize g2 d"
proof -
  have "synthesize g1 d = synthesize g2 d"
  proof (cases "d < 0 \<or> kMaxLength < sampleRate * d * 2")
    case True
    then show ?thesis by (simp add: synthesize_throws)
  next
    case False
    then show ?thesis by (simp add: synthesize_ok)
  qed
  then show ?thesis
    by (simp add: generateSimpleTone_def)
qed

theorem generateSimpleTone_deterministic_witness:
  "generateSimpleTone (\<lambda>k. 0) 2 = generateSimpleTone (\<lambda>k. 255) 2"
  using generateSimpleTone_deterministic [of "\<lambda>k. 0" 2 "\<lambda>k. 255"] by simp

subsection \<open>The handler and the fallback chain\<close>

lemma dropWhile_Nil_iff: "dropWhile P xs = [] \<longleftrightarrow> (\<forall>x \<in> set xs. P x)"
  by (induction xs) auto

lemma dropWhile_rev_nonempty:
  assumes "dropWhile P xs \<noteq> []"
  shows "dropWhile P (rev (dropWhile P xs)) \<noteq> []"
proof -
  obtain y ys where d: "dropWhile P xs = y # ys"
    using assms by (cases "dropWhile P xs") auto
  then have "\<not> P y"
    using hd_dropWhile [of P xs] by auto
  then have "\<not> (\<forall>z \<in> set (rev (dropWhile P xs)). P z)"
    by (auto simp add: d)
  then show ?thesis
    by (simp add: dropWhile_Nil_iff)
qed

lemma trim_empty_iff: "trim s = [] \<longleftrightarrow> (\<forall>c \<in> set s. isWhiteSpace c)"
proof
  assume "trim s = []"
  then have "dropWhile isWhiteSpace s = []"
    using dropWhile_rev_nonempty [of isWhiteSpace s] by (auto simp add: trim_def)
  then show "\<forall>c \<in> set s. isWhiteSpace c"
    by (simp only: dropWhile_Nil_iff)
next
  assume "\<forall>c \<in> set s. isWhiteSpace c"
  then have d: "dropWhile isWhiteSpace s = []"
    by (simp only: dropWhile_Nil_iff)
  show "trim s = []"
    unfolding trim_def d by simp
qed

lemma validPrompt_iff:
  "validPrompt p \<longleftrightarrow> (\<exists>s. p = JString s \<and> (\<exists>c \<in> set s. \<not> isWhiteSpace c))"
proof (cases p)
  case (JString s)
  have "trim s \<noteq> [] \<Longrightarrow> s \<noteq> []"
    by (auto simp add: trim_def)
  then show ?thesis
    using trim_empty_iff [of s] by (auto simp add: validPrompt_def JString)
qed (simp_all add: validPrompt_def)








lemma generateSimpleTone_throws:
  assumes "d < 0"
  shows "generateSimpleTone g d = Inl (ERR_OUT_OF_RANGE ''size'')"
  using assms by (simp add: generateSimpleTone_def synthesize_throws andThen_Inl)

lemma tryModels_secondary:
  "\<forall>e \<in> set (fst (tryModels env p d ms)). tierOf e = Secondary"
  by (induction ms) (auto simp add: Let_def split: provider_outcome.splits prod.splits)

lemma tryModels_calls_nonempty:
  "ms \<noteq> [] \<Longrightarrow> fst (tryModels env p d ms) \<noteq> []"
  by (cases ms) (auto simp add: Let_def split: provider_outcome.splits prod.splits)

lemma generateMusicFallback_tiers:
  "fst (generateMusicFallback env p d) \<noteq> [] \<and>
   (\<forall>e \<in> set (fst (generateMusicFallback env p d)). tierOf e \<noteq> Primary)"
proof -
  have "fst (tryModels env p d models) \<noteq> []"
    by (rule tryModels_calls_nonempty) (simp add: models_def)
  then show ?thesis
    using tryModels_secondary [of env p d models]
    by (auto simp add: generateMusicFallback_def split: prod.splits option.splits sum.splits)
qed

lemma last_tier:
  assumes "evs \<noteq> []" "\<forall>e \<in> set evs. tierOf e \<noteq> Primary"
  shows "tierOf (last (PrimaryCall # evs)) \<noteq> Primary"
  using assms by simp

lemma servedBy_audio:
  "servedBy \<lparr>calls = e # evs, reply = audioResponse env buf fb\<rparr> = Some (tierOf (last (e # evs)))"
  by (simp add: servedBy_def audioResponse_def)

lemma servedBy_error:
  "servedBy \<lparr>calls = evs, reply = errorResponse err\<rparr> = None"
  by (simp add: servedBy_def errorResponse_def Let_def)

lemma servedBy_badRequest:
  "servedBy \<lparr>calls = evs, reply = badRequest\<rparr> = None"
  by (simp add: servedBy_def badRequest_def)

lemma header_audioResponse:
  "header (audioResponse env buf fb) ''Content-Type''
     = Some (HString (if fb then ''audio/wav'' else ''audio/mpeg''))"
  "header (audioResponse env buf fb) ''Content-Length'' = Some (HNumber (length buf))"
  "header (audioResponse env buf fb) ''Content-Disposition''
     = Some (HString (''attachment; filename='' @ [CHR 0x22] @ ''generated-music-''
                     @ decimal (dateNow env) @ ''.''
                     @ (if fb then ''wav'' else ''mp3'') @ [CHR 0x22]))"
  "header (audioResponse env buf fb) ''X-Music-Source''
     = (if fb then Some (HString ''fallback'') else None)"
  by (simp_all add: header_def audioResponse_def)

text \<open>The shape of every outcome of the handler for a valid prompt.\<close>

lemma postGenerate_shape:
  assumes "validPrompt (prompt req)"
  shows "(\<exists>buf. postGenerate env req = \<lparr>calls = [PrimaryCall], reply = audioResponse env buf False\<rparr>)
       \<or> (\<exists>evs buf. evs \<noteq> [] \<and> (\<forall>e \<in> set evs. tierOf e \<noteq> Primary) \<and>
             postGenerate env req = \<lparr>calls = PrimaryCall # evs, reply = audioResponse env buf True\<rparr>)
       \<or> (\<exists>evs err. postGenerate env req = \<lparr>calls = evs, reply = errorResponse err\<rparr>)"
proof (cases "elevenLabs env (stringOf (prompt req)) (musicLengthMs req)")
  case (Resolves buf)
  then have "postGenerate env req = \<lparr>calls = [PrimaryCall], reply = audioResponse env buf False\<rparr>"
    using assms by (simp add: postGenerate_def)
  then show ?thesis
    by blast
next
  case (Rejects msg)
  let ?d = "min (durationOf (musicLengthMs req)) 30"
  obtain evs r where f: "generateMusicFallback env (stringOf (prompt req)) ?d = (evs, r)"
    by (cases "generateMusicFallback env (stringOf (prompt req)) ?d") auto
  have t: "evs \<noteq> []" "\<forall>e \<in> set evs. tierOf e \<noteq> Primary"
    using generateMusicFallback_tiers [of env "stringOf (prompt req)" ?d] by (simp_all add: f)
  show ?thesis
  proof (cases r)
    case (Inr buf)
    then have "postGenerate env req = \<lparr>calls = PrimaryCall # evs, reply = audioResponse env buf True\<rparr>"
      using assms Rejects f by (simp add: postGenerate_def Let_def)
    then show ?thesis
      using t by blast
  next
    case (Inl err)
    show ?thesis
    proof (cases "generateSimpleTone (uninitialised env) ?d")
      case (Inr buf)
      then have "postGenerate env req
          = \<lparr>calls = PrimaryCall # (evs @ [SynthCall ?d]), reply = audioResponse env buf True\<rparr>"
        using assms Rejects f Inl by (simp add: postGenerate_def Let_def)
      moreover have "evs @ [SynthCall ?d] \<noteq> []"
        "\<forall>e \<in> set (evs @ [SynthCall ?d]). tierOf e \<noteq> Primary"
        using t by simp_all
      ultimately show ?thesis
        by blast
    next
      case (Inl err')
      then have "postGenerate env req
          = \<lparr>calls = PrimaryCall # evs @ [SynthCall ?d], reply = errorResponse err'\<rparr>"
        using assms Rejects f \<open>r = Inl err\<close> by (simp add: postGenerate_def Let_def)
      then show ?thesis
        by blast
    qed
  qed
qed





lemma validPrompt_a: "validPrompt (JString [0x61])"
  by (simp add: validPrompt_def trim_def isWhiteSpace_def)

lemma tryModels_secondAnswers:
  "tryModels secondAnswers p d models
     = ([SecondaryCall ''facebook/musicgen-small'' (min d 30),
         SecondaryCall ''facebook/musicgen-medium'' (min d 30)], Some [1, 2, 3])"
  by (simp add: models_def secondAnswers_def Let_def)

lemma tryModels_allDown:
  "tryModels allDown p d models
     = ([SecondaryCall ''facebook/musicgen-small'' (min d 30),
         SecondaryCall ''facebook/musicgen-medium'' (min d 30),
         SecondaryCall ''audiocraft/musicgen-small'' (min d 30)], None)"
  by (simp add: models_def allDown_def Let_def)

lemma postGenerate_secondAnswers:
  "postGenerate secondAnswers \<lparr>prompt = JString [0x61], musicLengthMs = ms\<rparr>
     = \<lparr>calls = [PrimaryCall,
                  SecondaryCall ''facebook/musicgen-small'' (min (durationOf ms) 30),
                  SecondaryCall ''facebook/musicgen-medium'' (min (durationOf ms) 30)],
        reply = audioResponse secondAnswers [1, 2, 3] True\<rparr>"
proof -
  have "elevenLabs secondAnswers p m = Rejects ''Request failed with status code 503''" for p m
    by (simp add: secondAnswers_def)
  then show ?thesis
    by (simp add: postGenerate_def validPrompt_a generateMusicFallback_def tryModels_secondAnswers
        Let_def)
qed



text \<open>
  C8. When the primary provider fails, the first secondary model resolves with an empty
  payload or rejects, and the second resolves with a non-empty payload, the handler
  replies with the payload of the second model, the tier is Secondary, the calls are the
  primary provider and the two models in order, and the synthesizer is not called.
\<close>

theorem second_secondary_serves:
  assumes "validPrompt (prompt req)"
    and "elevenLabs env (stringOf (prompt req)) (musicLengthMs req) = Rejects msg"
    and "huggingFace env ''facebook/musicgen-small'' (stringOf (prompt req))
           (min (durationOf (musicLengthMs req)) 30) = Resolves []
         \<or> (\<exists>m. huggingFace env ''facebook/musicgen-small'' (stringOf (prompt req))
                  (min (durationOf (musicLengthMs req)) 30) = Rejects m)"
    and "huggingFace env ''facebook/musicgen-medium'' (stringOf (prompt req))
           (min (durationOf (musicLengthMs req)) 30) = Resolves payload"
    and "payload \<noteq> []"
  shows "status (reply (postGenerate env req)) = 200 \<and>
         body (reply (postGenerate env req)) = AudioBody payload \<and>
         servedBy (postGenerate env req) = Some Secondary \<and>
         calls (postGenerate env req)
           = [PrimaryCall,
              SecondaryCall ''facebook/musicgen-small'' (min (durationOf (musicLengthMs req)) 30),
              SecondaryCall ''facebook/musicgen-medium'' (min (durationOf (musicLengthMs req)) 30)] \<and>
         (\<forall>d. SynthCall d \<notin> set (calls (postGenerate env req)))"
proof -
  let ?d = "min (durationOf (musicLengthMs req)) 30"
  let ?p = "stringOf (prompt req)"
  have "tryModels env ?p ?d models
      = ([SecondaryCall ''facebook/musicgen-small'' ?d,
          SecondaryCall ''facebook/musicgen-medium'' ?d], Some payload)"
    using assms(3-5) by (auto simp add: models_def Let_def)
  then have "postGenerate env req
      = \<lparr>calls = [PrimaryCall, SecondaryCall ''facebook/musicgen-small'' ?d,
                   SecondaryCall ''facebook/musicgen-medium'' ?d],
         reply = audioResponse env payload True\<rparr>"
    using assms(1,2) by (simp add: postGenerate_def generateMusicFallback_def Let_def)
  then show ?thesis
    by (simp add: servedBy_def audioResponse_def)
qed

theorem second_secondary_serves_witness:
  "status (reply (postGenerate secondAnswers \<lparr>prompt = JString [0x61], musicLengthMs = None\<rparr>)) = 200 \<and>
   body (reply (postGenerate secondAnswers \<lparr>prompt = JString [0x61], musicLengthMs = None\<rparr>))
     = AudioBody [1, 2, 3] \<and>
   servedBy (postGenerate secondAnswers \<lparr>prompt = JString [0x61], musicLengthMs = None\<rparr>)
     = Some Secondary \<and>
   calls (postGenerate secondAnswers \<lparr>prompt = JString [0x61], musicLengthMs = None\<rparr>)
     = [PrimaryCall, SecondaryCall ''facebook/musicgen-small'' 30,
        SecondaryCall ''facebook/musicgen-medium'' 30]"
proof -
  let ?req = "\<lparr>prompt = JString [0x61], musicLengthMs = None\<rparr>"
  have v: "validPrompt (prompt ?req)"
    by (simp add: validPrompt_a)
  have r: "elevenLabs secondAnswers (stringOf (prompt ?req)) (musicLengthMs ?req)
      = Rejects ''Request failed with status code 503''"
    by (simp add: secondAnswers_def)
  have h1: "huggingFace secondAnswers ''facebook/musicgen-small'' (stringOf (prompt ?req))
           (min (durationOf (musicLengthMs ?req)) 30) = Resolves []
         \<or> (\<exists>m. huggingFace secondAnswers ''facebook/musicgen-small'' (stringOf (prompt ?req))
                  (min (durationOf (musicLengthMs ?req)) 30) = Rejects m)"
    by (simp add: secondAnswers_def)
  have h2: "huggingFace secondAnswers ''facebook/musicgen-medium'' (stringOf (prompt ?req))
           (min (durationOf (musicLengthMs ?req)) 30) = Resolves [1, 2, 3]"
    by (simp add: secondAnswers_def)
  have d: "min (durationOf None) 30 = 30"
    by (simp add: durationOf_def)
  show ?thesis
    using second_secondary_serves [OF v r h1 h2] d by simp
qed

text \<open>
  C2 (as amended). For every successful generation, \<^verbatim>\<open>Content-Type\<close> is
  \<^verbatim>\<open>audio/mpeg\<close> when the primary provider served the request and \<^verbatim>\<open>audio/wav\<close> when a
  secondary provider or the local synthesis did, the attachment's file name ends in
  \<^verbatim>\<open>.mp3\<close> and \<^verbatim>\<open>.wav\<close> respectively, and the marker header \<^verbatim>\<open>X-Music-Source\<close> is
  present exactly when a non-primary tier served the request.
\<close>

theorem headers_by_tier:
  assumes "servedBy (postGenerate env req) = Some t"
  shows "header (reply (postGenerate env req)) ''Content-Type''
           = Some (HString (if t = Primary then ''audio/mpeg'' else ''audio/wav'')) \<and>
         header (reply (postGenerate env req)) ''Content-Disposition''
           = Some (HString (''attachment; filename='' @ [CHR 0x22] @ ''generated-music-''
                     @ decimal (dateNow env) @ ''.''
                     @ (if t = Primary then ''mp3'' else ''wav'') @ [CHR 0x22])) \<and>
         header (reply (postGenerate env req)) ''X-Music-Source''
           = (if t = Primary then None else Some (HString ''fallback''))"
proof (cases "validPrompt (prompt req)")
  case False
  then have "servedBy (postGenerate env req) = None"
    by (simp add: postGenerate_def servedBy_badRequest)
  then show ?thesis
    using assms by simp
next
  case True
  from postGenerate_shape [OF True, of env]
  consider
    (primary) buf where
      "postGenerate env req = \<lparr>calls = [PrimaryCall], reply = audioResponse env buf False\<rparr>"
  | (fallback) evs buf where "evs \<noteq> []" "\<forall>e \<in> set evs. tierOf e \<noteq> Primary"
      "postGenerate env req = \<lparr>calls = PrimaryCall # evs, reply = audioResponse env buf True\<rparr>"
  | (failed) evs err where
      "postGenerate env req = \<lparr>calls = evs, reply = errorResponse err\<rparr>"
    by blast
  then show ?thesis
  proof cases
    case primary
    then have "t = Primary"
      using assms by (simp add: servedBy_audio)
    then show ?thesis
      by (simp add: primary header_audioResponse)
  next
    case fallback
    have "t = tierOf (last (PrimaryCall # evs))"
      using assms by (simp only: fallback(3) servedBy_audio option.inject)
    then have "t \<noteq> Primary"
      using last_tier [OF fallback(1,2)] by simp
    then show ?thesis
      by (simp add: fallback(3) header_audioResponse)
  next
    case failed
    then show ?thesis
      using assms by (simp add: servedBy_error)
  qed
qed

theorem headers_by_tier_witness:
  "servedBy (postGenerate secondAnswers \<lparr>prompt = JString [0x61], musicLengthMs = None\<rparr>)
     = Some Secondary \<and>
   header (reply (postGenerate secondAnswers \<lparr>prompt = JString [0x61], musicLengthMs = None\<rparr>))
     ''Content-Type'' = Some (HString ''audio/wav'') \<and>
   header (reply (postGenerate secondAnswers \<lparr>prompt = JString [0x61], musicLengthMs = None\<rparr>))
     ''X-Music-Source'' = Some (HString ''fallback'')"
proof -
  let ?req = "\<lparr>prompt = JString [0x61], musicLengthMs = None\<rparr>"
  have s: "servedBy (postGenerate secondAnswers ?req) = Some Secondary"
    by (simp add: postGenerate_secondAnswers servedBy_audio)
  show ?thesis
    using headers_by_tier [OF s] s by simp
qed

text \<open>
  C2 as stated, \<^verbatim>\<open>audio/mpeg\<close> for the Secondary tier, fails: a request served by the
  second secondary model is answered with \<^verbatim>\<open>audio/wav\<close>.
\<close>

theorem secondary_content_type_counterexample:
  "servedBy (postGenerate secondAnswers \<lparr>prompt = JString [0x61], musicLengthMs = None\<rparr>)
     = Some Secondary \<and>
   header (reply (postGenerate secondAnswers \<lparr>prompt = JString [0x61], musicLengthMs = None\<rparr>))
     ''Content-Type'' \<noteq> Some (HString ''audio/mpeg'')"
  by (simp add: postGenerate_secondAnswers servedBy_audio header_audioResponse)

text \<open>
  C10. A prompt that is not a string, or a string of white space only (the empty string
  included), is answered with status 400 and the structured error, and no provider and
  no synthesizer is called.
\<close>

theorem blank_prompt_rejected:
  assumes "\<not> isString p \<or> (\<forall>c \<in> set (stringOf p). isWhiteSpace c)"
  shows "postGenerate env \<lparr>prompt = p, musicLengthMs = ms\<rparr> = \<lparr>calls = [], reply = badRequest\<rparr> \<and>
         status badRequest = 400 \<and>
         body badRequest = JsonBody ''Prompt is required''
           ''Please provide a text prompt describing the music you want to generate''"
proof -
  have "\<not> validPrompt p"
    using assms by (auto simp add: validPrompt_iff)
  then show ?thesis
    by (simp add: postGenerate_def badRequest_def)
qed

theorem blank_prompt_rejected_witness:
  "postGenerate secondAnswers \<lparr>prompt = JString [0x20, 0x09, 0x0A], musicLengthMs = None\<rparr>
     = \<lparr>calls = [], reply = badRequest\<rparr> \<and> status badRequest = 400"
proof -
  have "\<not> isString (JString [0x20, 0x09, 0x0A]) \<or>
      (\<forall>c \<in> set (stringOf (JString [0x20, 0x09, 0x0A])). isWhiteSpace c)"
    by (simp add: isWhiteSpace_def)
  from blank_prompt_rejected [OF this, of secondAnswers None] show ?thesis
    by simp
qed

text \<open>
  With a length that is omitted or not negative, the fallback chain always ends in
  audio: the synthesizer cannot throw for a duration from 0 to 30.
\<close>

lemma postGenerate_serves_audio:
  assumes "validPrompt (prompt req)" "0 \<le> durationOf (musicLengthMs req)"
  shows "\<exists>buf fb. reply (postGenerate env req) = audioResponse env buf fb"
proof (cases "elevenLabs env (stringOf (prompt req)) (musicLengthMs req)")
  case (Resolves buf)
  then have "reply (postGenerate env req) = audioResponse env buf False"
    using assms(1) by (simp add: postGenerate_def)
  then show ?thesis
    by blast
next
  case (Rejects msg)
  let ?d = "min (durationOf (musicLengthMs req)) 30"
  have "0 \<le> ?d" "?d \<le> 30"
    using assms(2) by simp_all
  then obtain wav where w: "generateSimpleTone (uninitialised env) ?d = Inr wav"
    using generateSimpleTone_short [of ?d "uninitialised env"] by simp
  have "\<exists>evs buf. generateMusicFallback env (stringOf (prompt req)) ?d = (evs, Inr buf)"
  proof (cases "tryModels env (stringOf (prompt req)) ?d models")
    case (Pair evs r)
    then show ?thesis
      by (cases r) (simp_all add: generateMusicFallback_def w)
  qed
  then obtain evs buf where "generateMusicFallback env (stringOf (prompt req)) ?d = (evs, Inr buf)"
    by blast
  then have "reply (postGenerate env req) = audioResponse env buf True"
    using assms(1) Rejects by (simp add: postGenerate_def Let_def)
  then show ?thesis
    by blast
qed

text \<open>
  C1 at a failing input. With a valid prompt, every provider down and
  \<^verbatim>\<open>musicLengthMs = -1000\<close>, the duration is \<open>-1\<close>, \<^verbatim>\<open>Buffer.allocUnsafe\<close> throws in each
  of the three calls of the synthesizer, and the handler answers with status 500 and a
  JSON error instead of audio.
\<close>

theorem negative_length_fails:
  "calls (postGenerate allDown \<lparr>prompt = JString [0x61], musicLengthMs = Some (- 1000)\<rparr>)
     = [PrimaryCall, SecondaryCall ''facebook/musicgen-small'' (- 1),
        SecondaryCall ''facebook/musicgen-medium'' (- 1),
        SecondaryCall ''audiocraft/musicgen-small'' (- 1),
        SynthCall (- 1), SynthCall (- 1), SynthCall (- 1)] \<and>
   reply (postGenerate allDown \<lparr>prompt = JString [0x61], musicLengthMs = Some (- 1000)\<rparr>)
     = errorResponse (ERR_OUT_OF_RANGE ''size'') \<and>
   status (reply (postGenerate allDown \<lparr>prompt = JString [0x61], musicLengthMs = Some (- 1000)\<rparr>))
     = 500 \<and>
   servedBy (postGenerate allDown \<lparr>prompt = JString [0x61], musicLengthMs = Some (- 1000)\<rparr>)
     = None"
proof -
  have g: "generateSimpleTone (uninitialised allDown) (- 1) = Inl (ERR_OUT_OF_RANGE ''size'')"
    by (rule generateSimpleTone_throws) simp
  have e: "elevenLabs allDown p ms = Rejects ''Request failed with status code 503''" for p ms
    by (simp add: allDown_def)
  have d: "min (durationOf (Some (- 1000))) 30 = - 1"
    by (simp add: durationOf_def)
  have r: "status (errorResponse (ERR_OUT_OF_RANGE ''size'')) = 500"
    by (simp add: errorResponse_def Let_def)
  have "postGenerate allDown \<lparr>prompt = JString [0x61], musicLengthMs = Some (- 1000)\<rparr>
      = \<lparr>calls = [PrimaryCall, SecondaryCall ''facebook/musicgen-small'' (- 1),
                   SecondaryCall ''facebook/musicgen-medium'' (- 1),
                   SecondaryCall ''audiocraft/musicgen-small'' (- 1),
                   SynthCall (- 1), SynthCall (- 1), SynthCall (- 1)],
         reply = errorResponse (ERR_OUT_OF_RANGE ''size'')\<rparr>"
    by (simp add: postGenerate_def validPrompt_a e d generateMusicFallback_def tryModels_allDown g
        Let_def)
  then show ?thesis
    by (simp add: r servedBy_error)
qed

subsection \<open>The waveform\<close>

lemma noteIndex_div: "noteIndex d i = (int i div samplesPerNote) mod totalNotes d"
proof -
  have "\<lfloor>real i / real_of_int samplesPerNote\<rfloor> = int i div samplesPerNote"
    using floor_divide_of_int_eq [of "int i" samplesPerNote, where ?'a = real] by simp
  then show ?thesis
    by (simp add: noteIndex_def)
qed

lemma frequency_spec: "frequency d i = specBaseFreq d i"
  by (simp add: frequency_def scaleIndex_def noteIndex_div specBaseFreq_def scale_def)

lemma amplitude_spec: "amplitude d i = \<lfloor>specValue d i\<rfloor>"
proof -
  have s: "sample d i = (sin (2 * pi * specBaseFreq d i * (real i / 44100))
      + 0.5 * sin (2 * pi * (specBaseFreq d i / 2) * (real i / 44100))) / 1.5"
    by (simp add: sample_def Let_def frequency_spec sampleRate_def ac_simps)
  show ?thesis
    unfolding amplitude_def specValue_def Let_def s by (rule refl)
qed

lemma createWavFile_long:
  assumes "4294967259 < int (length pcm)"
  shows "createWavFile pcm r = Inl (ERR_OUT_OF_RANGE ''value'')"
  using assms
  by (simp add: createWavFile_def Let_def writeUInt32LE_def checkInt_def andThen_Inl)

lemma generateSimpleTone_result:
  assumes "generateSimpleTone g d = Inr wav"
  shows "0 \<le> d \<and> wav = wavHeaderBytes (int (length (pcmBytes d (nat (sampleRate * d))))) sampleRate
                          @ pcmBytes d (nat (sampleRate * d))"
proof -
  let ?pcm = "pcmBytes d (nat (sampleRate * d))"
  have s: "0 \<le> d \<and> synthesize g d = Inr ?pcm"
    using synthesize_cases [of g d] assms by (auto simp add: generateSimpleTone_def andThen_Inl)
  then have c: "createWavFile ?pcm sampleRate = Inr wav"
    using assms by (simp add: generateSimpleTone_def andThen_Inr)
  then have "\<not> 4294967259 < int (length ?pcm)"
    using createWavFile_long [of ?pcm sampleRate] by auto
  then have "int (length ?pcm) \<le> 4294967259"
    by simp
  then have "createWavFile ?pcm sampleRate = Inr (wavHeaderBytes (int (length ?pcm)) sampleRate @ ?pcm)"
    by (rule createWavFile_ok) (simp_all add: sampleRate_def)
  then show ?thesis
    using c s by simp
qed

lemma readInt16LE_payload:
  "readInt16LE (wavHeaderBytes n r @ pcm) (44 + k) = readInt16LE pcm k"
  by (simp add: readInt16LE_def readUInt16LE_def nth_append length_wavHeaderBytes)

lemma tone_sample:
  assumes "int i < sampleRate * d" "generateSimpleTone g d = Inr wav"
  shows "readInt16LE wav (44 + 2 * i) = amplitude d i"
proof -
  let ?pcm = "pcmBytes d (nat (sampleRate * d))"
  have r: "0 \<le> d" "wav = wavHeaderBytes (int (length ?pcm)) sampleRate @ ?pcm"
    using generateSimpleTone_result [OF assms(2)] by simp_all
  have "i < nat (sampleRate * d)"
    using assms(1) by simp
  moreover have "int (nat (sampleRate * d)) \<le> sampleRate * d"
    using r(1) by (simp add: sampleRate_def)
  ultimately have "readInt16LE ?pcm (2 * i) = amplitude d i"
    by (rule pcmBytes_sample)
  then show ?thesis
    unfolding r(2) readInt16LE_payload .
qed

text \<open>The loop in an arbitrary arithmetic.\<close>

lemma frequencyIn_spec: "frequencyIn ar d i = specBaseFreqIn ar d i"
  by (simp add: frequencyIn_def scaleIndexIn_def noteIndexIn_def specBaseFreqIn_def scale_def)

lemma amplitudeIn_spec: "amplitudeIn ar d i = \<lfloor>specValueIn ar d i\<rfloor>"
proof -
  have h: "specBaseFreqIn ar d i * 0.5 = specBaseFreqIn ar d i / 2"
    by simp
  have c: "mathSin ar x * 0.5 = 0.5 * mathSin ar x" for x
    by simp
  have r: "real_of_int sampleRate = 44100"
    by (simp add: sampleRate_def)
  show ?thesis
    unfolding amplitudeIn_def specValueIn_def sampleIn_def Let_def frequencyIn_spec h c r
    by (rule refl)
qed

lemma amplitudeIn_exact: "amplitudeIn exactArithmetic d i = amplitude d i"
  by (simp add: amplitudeIn_def amplitude_def sampleIn_def sample_def Let_def frequencyIn_def
      frequency_def scaleIndexIn_def scaleIndex_def noteIndexIn_def noteIndex_def mathPI_def
      envelopeIn_def envelope_def notePositionIn_def notePosition_def globalEnvelopeIn_def
      globalEnvelope_def exactArithmetic_def)

lemma writeSamplesIn_exact: "writeSamplesIn exactArithmetic d xs buf = writeSamples d xs buf"
proof (induction xs arbitrary: buf)
  case Nil
  show ?case by simp
next
  case (Cons i xs)
  show ?case
    by (cases "writeInt16LE (amplitude d i) (i * 2) buf")
       (simp_all add: amplitudeIn_exact andThen_def Cons.IH)
qed

lemma generateSimpleToneIn_exact:
  "generateSimpleToneIn exactArithmetic g d = generateSimpleTone g d"
proof -
  have "writeSamplesIn exactArithmetic d xs = writeSamples d xs" for xs
    by (rule ext) (rule writeSamplesIn_exact)
  then show ?thesis
    by (simp add: generateSimpleToneIn_def generateSimpleTone_def synthesizeIn_def synthesize_def)
qed

lemma length_pcmBytesIn: "length (pcmBytesIn ar d n) = 2 * n"
  by (induction n) (simp_all add: pcmBytesIn_def)

lemma pcmBytesIn_Suc:
  "pcmBytesIn ar d (Suc n)
     = pcmBytesIn ar d n @ [byteAt (amplitudeIn ar d n) 0, byteAt (amplitudeIn ar d n) 1]"
  by (simp add: pcmBytesIn_def)

lemma pcmBytesIn_sample_bytes:
  assumes "i < n"
  shows "take 2 (drop (2 * i) (pcmBytesIn ar d n))
           = [byteAt (amplitudeIn ar d i) 0, byteAt (amplitudeIn ar d i) 1]"
  using assms
proof (induction n)
  case 0
  then show ?case by simp
next
  case (Suc n)
  show ?case
  proof (cases "i < n")
    case True
    then have "2 * i + 2 \<le> length (pcmBytesIn ar d n)"
      by (simp add: length_pcmBytesIn)
    then show ?thesis
      using Suc.IH [OF True] by (simp add: pcmBytesIn_Suc)
  next
    case False
    then have "i = n" using Suc.prems by simp
    then show ?thesis
      by (simp add: pcmBytesIn_Suc length_pcmBytesIn)
  qed
qed

text \<open>A write that returns has passed both checks.\<close>

lemma writeInt16LE_Inr:
  assumes "writeInt16LE v offset buf = Inr out"
  shows "- 32768 \<le> v \<and> v \<le> 32767 \<and> offset + 2 \<le> length buf \<and>
         out = buf[offset := byteAt v 0, offset + 1 := byteAt v 1]"
  using assms
  by (auto simp add: writeInt16LE_def checkInt_def checkBounds_def split: if_splits)

lemma writeSamplesIn_append:
  "writeSamplesIn ar d (xs @ ys) buf
     = andThen (writeSamplesIn ar d xs buf) (writeSamplesIn ar d ys)"
proof (induction xs arbitrary: buf)
  case Nil
  show ?case by (simp add: andThen_Inr)
next
  case (Cons i xs)
  show ?case
    by (cases "writeInt16LE (amplitudeIn ar d i) (i * 2) buf")
       (simp_all add: andThen_Inr andThen_Inl Cons.IH)
qed

text \<open>
  When the loop returns, every amplitude was in the range of \<^verbatim>\<open>writeInt16LE\<close> and the
  buffer holds the bytes of the amplitudes.
\<close>

lemma writeSamplesIn_upt:
  assumes "2 * n \<le> length buf" "writeSamplesIn ar d [0..<n] buf = Inr out"
  shows "out = pcmBytesIn ar d n @ drop (2 * n) buf \<and>
         (\<forall>i < n. - 32768 \<le> amplitudeIn ar d i \<and> amplitudeIn ar d i \<le> 32767)"
  using assms
proof (induction n arbitrary: out)
  case 0
  then show ?case by (simp add: pcmBytesIn_def)
next
  case (Suc n)
  let ?a = "amplitudeIn ar d n"
  have split: "writeSamplesIn ar d [0..<Suc n] buf
      = andThen (writeSamplesIn ar d [0..<n] buf) (writeSamplesIn ar d [n])"
    using writeSamplesIn_append [of ar d "[0..<n]" "[n]" buf] by simp
  obtain mid where mid: "writeSamplesIn ar d [0..<n] buf = Inr mid"
    using Suc.prems(2) unfolding split
    by (cases "writeSamplesIn ar d [0..<n] buf") (simp_all add: andThen_Inl)
  have ih: "mid = pcmBytesIn ar d n @ drop (2 * n) buf"
    "\<forall>i < n. - 32768 \<le> amplitudeIn ar d i \<and> amplitudeIn ar d i \<le> 32767"
    using Suc.IH [OF _ mid] Suc.prems(1) by simp_all
  have "writeSamplesIn ar d [n] mid = Inr out"
    using Suc.prems(2) unfolding split mid by (simp add: andThen_Inr)
  then have w: "writeInt16LE ?a (n * 2) mid = Inr out"
    by (cases "writeInt16LE ?a (n * 2) mid") (simp_all add: andThen_Inr andThen_Inl)
  have range: "- 32768 \<le> ?a" "?a \<le> 32767"
    and out: "out = mid[n * 2 := byteAt ?a 0, n * 2 + 1 := byteAt ?a 1]"
    using writeInt16LE_Inr [OF w] by simp_all
  have len: "2 \<le> length (drop (2 * n) buf)"
    using Suc.prems(1) by simp
  have "mid[n * 2 := byteAt ?a 0, n * 2 + 1 := byteAt ?a 1]
      = pcmBytesIn ar d n @ [byteAt ?a 0, byteAt ?a 1] @ drop 2 (drop (2 * n) buf)"
    unfolding ih(1)
    using update_two [OF len, of "pcmBytesIn ar d n"]
    by (simp add: length_pcmBytesIn mult.commute)
  also have "\<dots> = pcmBytesIn ar d (Suc n) @ drop (2 * Suc n) buf"
    by (simp add: pcmBytesIn_Suc add.commute)
  finally have "out = pcmBytesIn ar d (Suc n) @ drop (2 * Suc n) buf"
    unfolding out .
  moreover have "\<forall>i < Suc n. - 32768 \<le> amplitudeIn ar d i \<and> amplitudeIn ar d i \<le> 32767"
    using ih(2) range by (simp add: less_Suc_eq)
  ultimately show ?case
    by blast
qed

lemma synthesizeIn_result:
  assumes "synthesizeIn ar g d = Inr pcm"
  shows "0 \<le> d \<and> pcm = pcmBytesIn ar d (nat (sampleRate * d)) \<and>
         (\<forall>i < nat (sampleRate * d).
            - 32768 \<le> amplitudeIn ar d i \<and> amplitudeIn ar d i \<le> 32767)"
proof -
  let ?n = "nat (sampleRate * d)"
  let ?buf = "map g [0..<nat (sampleRate * d * 2)]"
  have ok: "\<not> (sampleRate * d * 2 < 0 \<or> kMaxLength < sampleRate * d * 2)"
    using assms
    by (cases "sampleRate * d * 2 < 0 \<or> kMaxLength < sampleRate * d * 2")
       (simp_all add: synthesizeIn_def Let_def allocUnsafe_def andThen_Inl)
  then have d: "0 \<le> d"
    by (simp add: sampleRate_def)
  have alloc: "allocUnsafe g (sampleRate * d * 2) = Inr ?buf"
    using ok by (simp add: allocUnsafe_def)
  have len: "length ?buf = 2 * ?n"
    using d by (simp add: sampleRate_def nat_mult_distrib)
  have w: "writeSamplesIn ar d [0..<?n] ?buf = Inr pcm"
    using assms by (simp add: synthesizeIn_def Let_def alloc andThen_Inr)
  have "pcm = pcmBytesIn ar d ?n @ drop (2 * ?n) ?buf \<and>
      (\<forall>i < ?n. - 32768 \<le> amplitudeIn ar d i \<and> amplitudeIn ar d i \<le> 32767)"
    by (rule writeSamplesIn_upt [OF _ w]) (simp add: len)
  moreover have "drop (2 * ?n) ?buf = []"
    using len by simp
  ultimately show ?thesis
    using d by simp
qed

lemma generateSimpleToneIn_result:
  assumes "generateSimpleToneIn ar g d = Inr wav"
  shows "0 \<le> d \<and>
         wav = wavHeaderBytes (int (length (pcmBytesIn ar d (nat (sampleRate * d))))) sampleRate
                 @ pcmBytesIn ar d (nat (sampleRate * d)) \<and>
         (\<forall>i < nat (sampleRate * d).
            - 32768 \<le> amplitudeIn ar d i \<and> amplitudeIn ar d i \<le> 32767)"
proof -
  let ?pcm = "pcmBytesIn ar d (nat (sampleRate * d))"
  obtain pcm where p: "synthesizeIn ar g d = Inr pcm"
    using assms
    by (cases "synthesizeIn ar g d") (simp_all add: generateSimpleToneIn_def andThen_Inl)
  have s: "0 \<le> d" "pcm = ?pcm"
    "\<forall>i < nat (sampleRate * d). - 32768 \<le> amplitudeIn ar d i \<and> amplitudeIn ar d i \<le> 32767"
    using synthesizeIn_result [OF p] by simp_all
  have c: "createWavFile ?pcm sampleRate = Inr wav"
    using assms p s(2) by (simp add: generateSimpleToneIn_def andThen_Inr)
  then have "\<not> 4294967259 < int (length ?pcm)"
    using createWavFile_long [of ?pcm sampleRate] by auto
  then have "int (length ?pcm) \<le> 4294967259"
    by simp
  then have "createWavFile ?pcm sampleRate = Inr (wavHeaderBytes (int (length ?pcm)) sampleRate @ ?pcm)"
    by (rule createWavFile_ok) (simp_all add: sampleRate_def)
  then have "wav = wavHeaderBytes (int (length ?pcm)) sampleRate @ ?pcm"
    using c by simp
  then show ?thesis
    using s(1,3) by blast
qed

lemma written_amplitude:
  assumes "int i < sampleRate * d" "generateSimpleToneIn ar g d = Inr wav"
  shows "readInt16LE wav (44 + 2 * i) = amplitudeIn ar d i"
proof -
  let ?n = "nat (sampleRate * d)"
  let ?pcm = "pcmBytesIn ar d ?n"
  have r: "wav = wavHeaderBytes (int (length ?pcm)) sampleRate @ ?pcm"
    "\<forall>i < ?n. - 32768 \<le> amplitudeIn ar d i \<and> amplitudeIn ar d i \<le> 32767"
    using generateSimpleToneIn_result [OF assms(2)] by simp_all
  have i: "i < ?n"
    using assms(1) by simp
  then have "- 32768 \<le> amplitudeIn ar d i" "amplitudeIn ar d i \<le> 32767"
    using r(2) by simp_all
  then have "readInt16LE ?pcm (2 * i) = amplitudeIn ar d i"
    using pcmBytesIn_sample_bytes [OF i, of ar d] by (intro readInt16LE_at)
  then show ?thesis
    unfolding r(1) readInt16LE_payload .
qed

text \<open>
  C9 (as amended). For every sample index \<open>i\<close> of a clip the synthesizer returns, the
  16-bit sample stored at byte \<open>44 + 2 i\<close> of the container is the floor (the rounding
  toward minus infinity of \<^verbatim>\<open>Math.floor\<close>) of the value the specification describes:
  the two-voice sine mix over the C4 major scale, times the per-note envelope, the
  global fade and 12000. This holds in every arithmetic, whatever the rounding of an
  operation and the sine are, hence for the doubles of the program.
\<close>

theorem written_sample_is_floor:
  assumes "int i < sampleRate * d" "generateSimpleToneIn ar g d = Inr wav"
  shows "readInt16LE wav (44 + 2 * i) = \<lfloor>specValueIn ar d i\<rfloor>"
  using written_amplitude [OF assms] by (simp only: amplitudeIn_spec)

theorem written_sample_is_floor_witness:
  "\<exists>wav. generateSimpleToneIn exactArithmetic (\<lambda>k. 0) 1 = Inr wav \<and>
     readInt16LE wav (44 + 2 * 7) = \<lfloor>specValueIn exactArithmetic 1 7\<rfloor>"
proof -
  obtain wav where w: "generateSimpleToneIn exactArithmetic (\<lambda>k. 0) 1 = Inr wav"
    using generateSimpleTone_short [of 1 "\<lambda>k. 0"] by (simp add: generateSimpleToneIn_exact)
  have "int 7 < sampleRate * 1"
    by (simp add: sampleRate_def)
  then have "readInt16LE wav (44 + 2 * 7) = \<lfloor>specValueIn exactArithmetic 1 7\<rfloor>"
    using w by (rule written_sample_is_floor)
  then show ?thesis
    using w by blast
qed

text \<open>In exact arithmetic the two embeddings of the waveform agree.\<close>

lemma specValueIn_exact: "specValueIn exactArithmetic d i = specValue d i"
proof -
  have f: "\<lfloor>real i / real_of_int samplesPerNote\<rfloor> = int i div samplesPerNote"
    using floor_divide_of_int_eq [of "int i" samplesPerNote, where ?'a = real] by simp
  have b: "specBaseFreqIn exactArithmetic d i = specBaseFreq d i"
    by (simp add: specBaseFreqIn_def specBaseFreq_def exactArithmetic_def f)
  have e: "envelopeIn exactArithmetic i = envelope i"
    by (simp add: envelopeIn_def envelope_def notePositionIn_def notePosition_def
        exactArithmetic_def)
  have g: "globalEnvelopeIn exactArithmetic d i = globalEnvelope d i"
    by (simp add: globalEnvelopeIn_def globalEnvelope_def exactArithmetic_def)
  have p: "mathPI exactArithmetic = pi" "rnd exactArithmetic = (\<lambda>x. x)"
    "mathSin exactArithmetic = sin"
    by (simp_all add: mathPI_def exactArithmetic_def)
  show ?thesis
    unfolding specValueIn_def specValue_def Let_def b e g p by (rule refl)
qed

lemma sin_before_period:
  fixes x :: real
  shows "sin (2 * pi * (real_of_int n - x)) = - sin (2 * pi * x)"
proof -
  have "sin (2 * pi * (real_of_int n - x)) = sin (2 * pi * real_of_int n - 2 * pi * x)"
    by (simp add: right_diff_distrib)
  also have "\<dots> = sin (2 * pi * real_of_int n) * cos (2 * pi * x)
      - cos (2 * pi * real_of_int n) * sin (2 * pi * x)"
    by (rule sin_diff)
  also have "\<dots> = - sin (2 * pi * x)"
    by (simp only: sin_int_2pin cos_int_2pin)
  finally show ?thesis .
qed

lemma specBaseFreq_last: "specBaseFreq 8 352799 = 523.25"
  by (simp add: specBaseFreq_def samplesPerNote_eq totalNotes_eq)

lemma envelope_last: "envelope 352799 = 10 / 22050"
  by (simp add: envelope_def notePosition_def samplesPerNote_eq)

lemma globalEnvelope_last: "globalEnvelope 8 352799 = 1 / 4410"
  by (simp add: globalEnvelope_def Let_def sampleRate_def)

lemma specValue_last: "- 1 < specValue 8 352799" "specValue 8 352799 < 0"
proof -
  define a :: real where "a = 523.25 / 44100"
  define b :: real where "b = 261.625 / 44100"
  define sa where "sa = sin (2 * pi * a)"
  define sb where "sb = sin (2 * pi * b)"
  have pa: "0 < sa"
    unfolding sa_def by (rule sin_gt_zero) (simp_all add: a_def)
  have pb: "0 < sb"
    unfolding sb_def by (rule sin_gt_zero) (simp_all add: b_def)
  have la: "sa \<le> 1" and lb: "sb \<le> 1"
    by (simp_all add: sa_def sb_def)
  have "2 * pi * 523.25 * (real 352799 / 44100) = 2 * pi * (real_of_int 4186 - a)"
    by (simp add: a_def)
  then have ea: "sin (2 * pi * 523.25 * (real 352799 / 44100)) = - sa"
    by (simp only: sin_before_period sa_def)
  have "2 * pi * (523.25 / 2) * (real 352799 / 44100) = 2 * pi * (real_of_int 2093 - b)"
    by (simp add: b_def)
  then have eb: "sin (2 * pi * (523.25 / 2) * (real 352799 / 44100)) = - sb"
    by (simp only: sin_before_period sb_def)
  have v: "specValue 8 352799
      = (- sa + 0.5 * (- sb)) / 1.5 * (10 / 22050) * (1 / 4410) * 12000"
    unfolding specValue_def Let_def specBaseFreq_last envelope_last globalEnvelope_last ea eb
    by (rule refl)
  have "specValue 8 352799 = - ((sa + 0.5 * sb) * (120000 / (1.5 * 22050 * 4410)))"
    unfolding v by (simp add: field_simps)
  then have w: "specValue 8 352799 = - ((sa * 160 + 80 * sb) / 194481)"
    by (simp add: field_simps)
  have "0 < sa * 160 + 80 * sb" "sa * 160 + 80 * sb < 194481"
    using la lb pa pb by linarith+
  then show "- 1 < specValue 8 352799" "specValue 8 352799 < 0"
    unfolding w by simp_all
qed

text \<open>
  C9 as stated, truncation toward zero, fails at the last sample of an 8 second clip:
  the value is between \<open>-1\<close> and 0 (about \<open>-0.00008\<close>; computed here in exact
  arithmetic), truncation toward zero gives 0, and the sample written is \<open>-1\<close>.
\<close>

theorem last_sample_not_truncated_counterexample:
  "\<exists>wav. generateSimpleTone (\<lambda>k. 0) 8 = Inr wav \<and>
     readInt16LE wav (44 + 2 * 352799) = - 1 \<and>
     truncTowardZero (specValue 8 352799) = 0 \<and>
     generateSimpleToneIn exactArithmetic (\<lambda>k. 0) 8 = Inr wav \<and>
     truncTowardZero (specValueIn exactArithmetic 8 352799) = 0"
proof -
  obtain wav where w: "generateSimpleTone (\<lambda>k. 0) 8 = Inr wav"
    using generateSimpleTone_short [of 8 "\<lambda>k. 0"] by simp
  have "int 352799 < sampleRate * 8"
    by (simp add: sampleRate_def)
  then have "readInt16LE wav (44 + 2 * 352799) = amplitude 8 352799"
    using w by (rule tone_sample)
  moreover have "\<lfloor>specValue 8 352799\<rfloor> = - 1"
    using specValue_last by (simp add: floor_eq_iff)
  moreover have "\<lceil>specValue 8 352799\<rceil> = 0"
    using specValue_last by (simp add: ceiling_eq_iff)
  ultimately show ?thesis
    using w specValue_last
    by (simp add: amplitude_spec truncTowardZero_def generateSimpleToneIn_exact specValueIn_exact)
qed

end
